theory Spec2Isabelle
  imports Complex_Main "HOL-Library.Char_ord" "HOL-Library.List_Lexorder"
    "HOL-Library.Product_Lexorder" "HOL-Library.Log_Nat"
begin

section \<open>Retail ETL pipeline: data model\<close>

text \<open>
  The pipeline of \<^verbatim>\<open>etl_pipeline.py\<close> keeps four pandas tables as attributes of one
  object. A table is modelled as the list of its rows, a row as a record of its columns.
  A cell that pandas can hold as NaN (a missing CSV field) is an \<open>option\<close>, with \<open>None\<close>
  for NaN. A number of a table is the decimal number that the CSV file or \<^verbatim>\<open>round(2)\<close>
  gives, an exact rational. The sums, means and roundings of the aggregate tables are
  computed on these exact numbers, not in the float64 or int64 arithmetic of pandas; no
  statement below says how a sum of amounts comes out. The one comparison of floats that a
  statement turns on, the gate of the regional rule, is computed in float64 (section
  ``float64''). The key columns (\<open>id\<close>, \<open>customer_id\<close>, \<open>product_id\<close>) are integers
  and are never missing.
\<close>

record customer =
  c_id :: int
  c_name :: "string option"
  c_age :: "rat option"
  c_region :: "string option"
  c_created_at :: "string option"

record product =
  p_id :: int
  p_name :: "string option"
  p_category :: "string option"
  p_price :: "rat option"
  p_supplier :: "string option"
  p_created_at :: "string option"

text \<open>
  The \<open>date\<close> column of the sales table holds text when it comes from the CSV file and
  timestamps (nanoseconds since the epoch) after \<^verbatim>\<open>pd.to_datetime\<close>; a missing date is NaT.
\<close>

datatype date_cell = NaT | DateText string | Timestamp int

record sale =
  s_id :: int
  s_customer_id :: int
  s_product_id :: int
  s_date :: date_cell
  s_quantity :: "rat option"
  s_unit_price :: "rat option"
  s_total_amount :: "rat option"

record inventory =
  i_id :: int
  i_product_id :: int
  i_current_stock :: "rat option"
  i_reorder_level :: "rat option"
  i_max_stock :: "rat option"
  i_turnover_rate :: "rat option"
  i_last_updated :: "string option"

text \<open>
  The exceptions the pipeline can raise. \<open>ValueError\<close> carries the message of the source;
  \<open>DateParseError\<close> is the \<^verbatim>\<open>ValueError\<close> subclass that \<^verbatim>\<open>pd.to_datetime\<close> raises on
  text that is no date; \<open>AttributeError\<close> is what the \<^verbatim>\<open>.dt\<close> accessor raises on a column
  that holds no timestamps; \<open>KeyError\<close> is what \<^verbatim>\<open>.loc\<close> raises on a label that the index
  has not.
\<close>

datatype error = ValueError string | DateParseError string | AttributeError string | KeyError string

subsection \<open>Column operations of pandas\<close>

text \<open>\<^verbatim>\<open>Series.fillna(v)\<close>: a missing cell becomes \<open>v\<close>.\<close>

definition fillna :: "'a \<Rightarrow> 'a option \<Rightarrow> 'a option" where
  "fillna v x = (case x of None \<Rightarrow> Some v | Some y \<Rightarrow> Some y)"

text \<open>\<^verbatim>\<open>Series.fillna(m)\<close> where the fill value \<open>m\<close> may itself be NaN (the median of no ages).\<close>

definition fillna_with :: "'a option \<Rightarrow> 'a option \<Rightarrow> 'a option" where
  "fillna_with m x = (case x of None \<Rightarrow> m | Some y \<Rightarrow> Some y)"

text \<open>A comparison of a cell with a number is False on NaN.\<close>

definition cell_holds :: "(rat \<Rightarrow> bool) \<Rightarrow> rat option \<Rightarrow> bool" where
  "cell_holds P x = (case x of None \<Rightarrow> False | Some v \<Rightarrow> P v)"

text \<open>The values that are present in a column (NaN skipped).\<close>

definition present :: "'a option list \<Rightarrow> 'a list" where
  "present xs = concat (map (\<lambda>x. case x of None \<Rightarrow> [] | Some v \<Rightarrow> [v]) xs)"

text \<open>\<^verbatim>\<open>Series.median()\<close>: NaN skipped; NaN when no value is present.\<close>

definition median :: "rat option list \<Rightarrow> rat option" where
  "median xs =
     (let vs = sort (present xs); n = length vs
      in if n = 0 then None
         else if odd n then Some (vs ! (n div 2))
         else Some ((vs ! (n div 2 - 1) + vs ! (n div 2)) / 2))"

text \<open>\<^verbatim>\<open>DataFrame.drop_duplicates(subset=[key])\<close>: the first row of every key is kept.\<close>

fun drop_duplicates :: "('r \<Rightarrow> 'k) \<Rightarrow> 'r list \<Rightarrow> 'r list" where
  "drop_duplicates key [] = []"
| "drop_duplicates key (r # rs) =
     r # drop_duplicates key (filter (\<lambda>x. key x \<noteq> key r) rs)"

text \<open>\<^verbatim>\<open>Series.clip(lower=0)\<close>; NaN stays NaN.\<close>

definition clip_lower :: "rat \<Rightarrow> rat option \<Rightarrow> rat option" where
  "clip_lower lo x = map_option (max lo) x"

text \<open>
  \<^verbatim>\<open>pd.to_datetime\<close> on one cell. The parser of date text belongs to pandas and is a
  parameter \<open>parse\<close>: it gives the timestamp of a text, or \<open>None\<close> where pandas raises.
\<close>

fun to_datetime_cell :: "(string \<Rightarrow> int option) \<Rightarrow> date_cell \<Rightarrow> error + date_cell" where
  "to_datetime_cell parse NaT = Inr NaT"
| "to_datetime_cell parse (Timestamp t) = Inr (Timestamp t)"
| "to_datetime_cell parse (DateText s) =
     (case parse s of None \<Rightarrow> Inl (DateParseError s) | Some t \<Rightarrow> Inr (Timestamp t))"

text \<open>\<^verbatim>\<open>pd.to_datetime\<close> on a column: the first cell that does not parse raises.\<close>

fun to_datetime :: "(string \<Rightarrow> int option) \<Rightarrow> date_cell list \<Rightarrow> error + date_cell list" where
  "to_datetime parse [] = Inr []"
| "to_datetime parse (d # ds) =
     (case to_datetime_cell parse d of
        Inl e \<Rightarrow> Inl e
      | Inr d' \<Rightarrow> (case to_datetime parse ds of Inl e \<Rightarrow> Inl e | Inr ds' \<Rightarrow> Inr (d' # ds')))"

section \<open>The metrics bundle\<close>

text \<open>
  The rows of the aggregate tables that \<^verbatim>\<open>generate_metrics\<close> builds. A table indexed by a
  group key (\<^verbatim>\<open>to_dict('index')\<close>) is an association list from the key to its row, in the
  order of the table.
\<close>

record region_row =
  rr_total_revenue :: rat
  rr_total_sales :: nat
  rr_avg_order_value :: "rat option"

record top_product_row =
  tp_product_id :: int
  tp_name :: string
  tp_category :: string
  tp_total_quantity_sold :: rat
  tp_total_revenue :: rat
  tp_number_of_sales :: nat

record category_row =
  cp_total_revenue :: rat
  cp_avg_order_value :: "rat option"
  cp_total_quantity :: rat
  cp_number_of_sales :: nat

record customer_metric =
  cm_id :: int
  cm_total_spent :: rat
  cm_avg_order_value :: "rat option"
  cm_number_of_orders :: nat
  cm_first_purchase :: "int option"
  cm_last_purchase :: "int option"
  cm_age :: "rat option"
  cm_region :: "string option"
  cm_days_since_last_purchase :: "int option"
  cm_is_churned :: bool
  cm_age_group :: "nat option"

record customer_summary =
  total_customers :: nat
  active_customers :: nat
  churned_customers :: nat
  churn_rate :: "rat option"
  avg_customer_value :: "rat option"
  avg_order_value :: "rat option"

record age_group_row =
  ag_avg_spent :: "rat option"
  ag_total_spent :: rat
  ag_avg_orders :: "rat option"
  ag_churn_rate :: "rat option"

record low_stock_row =
  ls_product_id :: int
  ls_name :: "string option"
  ls_category :: "string option"
  ls_current_stock :: "rat option"
  ls_reorder_level :: "rat option"
  ls_turnover_rate :: "rat option"

record turnover_row =
  avg_turnover :: "rat option"
  min_turnover :: "rat option"
  max_turnover :: "rat option"

record inventory_insights =
  low_stock_products :: "low_stock_row list"
  total_products_at_risk :: nat
  turnover_by_category :: "(string \<times> turnover_row) list"

text \<open>
  An insight. Its \<^verbatim>\<open>description\<close> and \<^verbatim>\<open>recommendation\<close> are formatted texts (f-strings
  over floats) and are left out; the title, the impact and the category are the
  literals of the source.
\<close>

record insight =
  ins_title :: string
  ins_impact :: string
  ins_category :: string

text \<open>
  \<^verbatim>\<open>processed_data\<close>. The key \<^verbatim>\<open>monthly_trends\<close> (and the \<^verbatim>\<open>year_month\<close> column it adds
  to the sales table) is not modelled: it needs the calendar, and nothing below reads it.
\<close>

record metrics =
  revenue_by_region :: "(string \<times> region_row) list"
  top_products :: "top_product_row list"
  category_performance :: "(string \<times> category_row) list"
  customer_metrics_summary :: customer_summary
  age_group_analysis :: "(string \<times> age_group_row) list"
  inventory_insights :: inventory_insights
  business_insights :: "insight list"

section \<open>The pipeline object and \<open>clean_data\<close>\<close>

text \<open>
  \<^verbatim>\<open>RetailETLPipeline\<close>: the four tables are \<^verbatim>\<open>None\<close> until \<^verbatim>\<open>load_data\<close> has run, and
  \<^verbatim>\<open>processed_data\<close> is the empty dict (\<open>None\<close> here) until \<^verbatim>\<open>generate_metrics\<close> has
  run. A method takes the object and returns the exception it raised, if any, with the
  object as the method left it.
\<close>

record pipeline =
  customers_df :: "customer list option"
  products_df :: "product list option"
  sales_df :: "sale list option"
  inventory_df :: "inventory list option"
  processed_data :: "metrics option"

definition clean_customers :: "customer list \<Rightarrow> customer list" where
  "clean_customers cs =
     (let d = drop_duplicates c_id cs;
          d1 = map (\<lambda>c. c\<lparr>c_name := fillna ''Unknown Customer'' (c_name c)\<rparr>) d;
          m = median (map c_age d1);
          d2 = map (\<lambda>c. c\<lparr>c_age := fillna_with m (c_age c)\<rparr>) d1;
          d3 = map (\<lambda>c. c\<lparr>c_region := fillna ''Unknown'' (c_region c)\<rparr>) d2
      in filter (\<lambda>c. cell_holds (\<lambda>a. 18 \<le> a) (c_age c) \<and> cell_holds (\<lambda>a. a \<le> 100) (c_age c)) d3)"

definition clean_products :: "product list \<Rightarrow> product list" where
  "clean_products ps =
     (let d = drop_duplicates p_id ps;
          d1 = map (\<lambda>p. p\<lparr>p_name := fillna ''Unknown Product'' (p_name p)\<rparr>) d;
          d2 = map (\<lambda>p. p\<lparr>p_category := fillna ''Other'' (p_category p)\<rparr>) d1;
          d3 = map (\<lambda>p. p\<lparr>p_supplier := fillna ''Unknown Supplier'' (p_supplier p)\<rparr>) d2
      in filter (\<lambda>p. cell_holds (\<lambda>x. 0 < x) (p_price p) \<and> cell_holds (\<lambda>x. x \<le> 10000) (p_price p)) d3)"

text \<open>The sales steps before the date conversion (lines 85 to 102).\<close>

definition clean_sales_rows :: "customer list \<Rightarrow> product list \<Rightarrow> sale list \<Rightarrow> sale list" where
  "clean_sales_rows cs ps ss =
     (let s1 = drop_duplicates s_id ss;
          valid_customers = set (map c_id cs);
          valid_products = set (map p_id ps);
          s2 = filter (\<lambda>s. s_customer_id s \<in> valid_customers \<and> s_product_id s \<in> valid_products) s1;
          s3 = map (\<lambda>s. s\<lparr>s_quantity := fillna 1 (s_quantity s)\<rparr>) s2;
          s4 = filter (\<lambda>s. cell_holds (\<lambda>q. 0 < q) (s_quantity s)) s3
      in filter (\<lambda>s. cell_holds (\<lambda>a. 0 < a) (s_total_amount s)) s4)"

text \<open>Line 105: the date column is replaced by its conversion, or the conversion raises.\<close>

definition convert_dates :: "(string \<Rightarrow> int option) \<Rightarrow> sale list \<Rightarrow> error + sale list" where
  "convert_dates parse ss =
     (case to_datetime parse (map s_date ss) of
        Inl e \<Rightarrow> Inl e
      | Inr ds \<Rightarrow> Inr (map (\<lambda>(s, d). s\<lparr>s_date := d\<rparr>) (zip ss ds)))"

text \<open>
  The record synthesized for a product without inventory. \<open>today\<close> is
  \<^verbatim>\<open>datetime.now().strftime('%Y-%m-%d')\<close>.
\<close>

definition new_record :: "string \<Rightarrow> int \<Rightarrow> inventory" where
  "new_record today product_id =
     \<lparr>i_id = product_id, i_product_id = product_id, i_current_stock = Some 0,
      i_reorder_level = Some 10, i_max_stock = Some 100, i_turnover_rate = Some 1,
      i_last_updated = Some today\<rparr>"

text \<open>
  \<^verbatim>\<open>set(products.id) - set(inventory.product_id)\<close>, as the list the loop runs over. The
  order in which Python iterates a set is not fixed by the language; the model takes the
  order of the product table.
\<close>

definition missing_inventory :: "product list \<Rightarrow> inventory list \<Rightarrow> int list" where
  "missing_inventory ps ivs =
     filter (\<lambda>pid. pid \<notin> set (map i_product_id ivs)) (remdups (map p_id ps))"

definition clean_inventory :: "string \<Rightarrow> product list \<Rightarrow> inventory list \<Rightarrow> inventory list" where
  "clean_inventory today ps ivs =
     (let v1 = ivs @ map (new_record today) (missing_inventory ps ivs);
          v2 = map (\<lambda>r. r\<lparr>i_current_stock := clip_lower 0 (i_current_stock r)\<rparr>) v1
      in map (\<lambda>r. r\<lparr>i_turnover_rate := fillna 1 (i_turnover_rate r)\<rparr>) v2)"

definition loaded :: "pipeline \<Rightarrow> bool" where
  "loaded st \<longleftrightarrow>
     customers_df st \<noteq> None \<and> products_df st \<noteq> None \<and> sales_df st \<noteq> None \<and>
     inventory_df st \<noteq> None"

definition clean_data :: "(string \<Rightarrow> int option) \<Rightarrow> string \<Rightarrow> pipeline \<Rightarrow> error option \<times> pipeline" where
  "clean_data parse today st =
     (if \<not> loaded st
      then (Some (ValueError ''Data must be loaded before cleaning. Call load_data() first.''), st)
      else
        let cs = clean_customers (the (customers_df st));
            ps = clean_products (the (products_df st));
            ss = clean_sales_rows cs ps (the (sales_df st));
            st1 = st\<lparr>customers_df := Some cs, products_df := Some ps, sales_df := Some ss\<rparr>
        in case convert_dates parse ss of
             Inl e \<Rightarrow> (Some e, st1)
           | Inr ss' \<Rightarrow>
               (None, st1\<lparr>sales_df := Some ss',
                   inventory_df := Some (clean_inventory today ps (the (inventory_df st)))\<rparr>))"

section \<open>\<open>generate_metrics\<close>\<close>

subsection \<open>Aggregations\<close>

text \<open>
  \<^verbatim>\<open>round(2)\<close> rounds half to even, as numpy does; here on the exact value.
\<close>

definition round_half_even :: "rat \<Rightarrow> int" where
  "round_half_even x =
     (let f = \<lfloor>x\<rfloor>; d = x - of_int f
      in if d < 1 / 2 then f else if 1 / 2 < d then f + 1 else if even f then f else f + 1)"

definition round2 :: "rat \<Rightarrow> rat" where
  "round2 x = of_int (round_half_even (x * 100)) / 100"

text \<open>\<^verbatim>\<open>sum\<close>, \<^verbatim>\<open>count\<close>, \<^verbatim>\<open>mean\<close>, \<^verbatim>\<open>min\<close> and \<^verbatim>\<open>max\<close> of a column skip NaN; the mean, the
  minimum and the maximum of no value are NaN.\<close>

definition col_sum :: "rat option list \<Rightarrow> rat" where
  "col_sum xs = sum_list (present xs)"

definition col_count :: "'a option list \<Rightarrow> nat" where
  "col_count xs = length (present xs)"

definition col_mean :: "rat option list \<Rightarrow> rat option" where
  "col_mean xs =
     (if present xs = [] then None
      else Some (sum_list (present xs) / of_nat (length (present xs))))"

definition col_min :: "'a::linorder option list \<Rightarrow> 'a option" where
  "col_min xs = (case present xs of [] \<Rightarrow> None | v # vs \<Rightarrow> Some (fold min vs v))"

definition col_max :: "'a::linorder option list \<Rightarrow> 'a option" where
  "col_max xs = (case present xs of [] \<Rightarrow> None | v # vs \<Rightarrow> Some (fold max vs v))"

text \<open>The mean of a Boolean column: the share of True.\<close>

definition bool_mean :: "bool list \<Rightarrow> rat option" where
  "bool_mean bs = col_mean (map (\<lambda>b. Some (if b then 1 else 0)) bs)"

text \<open>
  \<^verbatim>\<open>left.merge(right, left_on=..., right_on=...)\<close>: the inner join, in the order of the
  left rows, every left row paired with the right rows of its key.
\<close>

definition merge_on :: "('l \<Rightarrow> 'k) \<Rightarrow> ('r \<Rightarrow> 'k) \<Rightarrow> 'l list \<Rightarrow> 'r list \<Rightarrow> ('l \<times> 'r) list" where
  "merge_on lkey rkey ls rs =
     concat (map (\<lambda>l. map (\<lambda>r. (l, r)) (filter (\<lambda>r. rkey r = lkey l) rs)) ls)"

text \<open>
  \<^verbatim>\<open>groupby(key)\<close>: the groups in ascending order of their key, each with its rows in
  table order; a row whose key is NaN is in no group.
\<close>

definition groupby :: "('r \<Rightarrow> 'k::linorder option) \<Rightarrow> 'r list \<Rightarrow> ('k \<times> 'r list) list" where
  "groupby key rows =
     map (\<lambda>k. (k, filter (\<lambda>r. key r = Some k) rows)) (sort (remdups (present (map key rows))))"

text \<open>
  \<^verbatim>\<open>sort_values(col, ascending=False)\<close>. The source passes no \<^verbatim>\<open>kind\<close>, so pandas sorts with
  its default, which its documentation does not promise to be stable. The sort is
  therefore a parameter \<open>argsort\<close>, which gives for a column the positions of its rows in
  descending order; \<open>argsort_ok\<close> is what every sort guarantees.
\<close>

definition sort_values_desc :: "(rat list \<Rightarrow> nat list) \<Rightarrow> ('r \<Rightarrow> rat) \<Rightarrow> 'r list \<Rightarrow> 'r list" where
  "sort_values_desc argsort col rows = map (\<lambda>i. rows ! i) (argsort (map col rows))"

definition argsort_ok :: "(rat list \<Rightarrow> nat list) \<Rightarrow> bool" where
  "argsort_ok argsort \<longleftrightarrow>
     (\<forall>vs. distinct (argsort vs) \<and> set (argsort vs) = {..<length vs} \<and>
           sorted_wrt (\<lambda>i j. vs ! j \<le> vs ! i) (argsort vs))"

text \<open>A sort that \<open>argsort_ok\<close> admits, for the example runs: a stable one.\<close>

definition argsort_stable :: "rat list \<Rightarrow> nat list" where
  "argsort_stable vs = sort_key (\<lambda>i. - (vs ! i)) [0..<length vs]"

subsection \<open>The aggregate tables\<close>

definition revenue_by_region_of :: "customer list \<Rightarrow> sale list \<Rightarrow> (string \<times> region_row) list" where
  "revenue_by_region_of cs ss =
     (let sales_with_customer = merge_on s_customer_id c_id ss cs
      in map (\<lambda>(region, rows).
            (region,
             \<lparr>rr_total_revenue = round2 (col_sum (map (\<lambda>(s, c). s_total_amount s) rows)),
              rr_total_sales = col_count (map (\<lambda>(s, c). s_total_amount s) rows),
              rr_avg_order_value =
                map_option round2 (col_mean (map (\<lambda>(s, c). s_total_amount s) rows))\<rparr>))
           (groupby (\<lambda>(s, c). c_region c) sales_with_customer))"

text \<open>The key of \<^verbatim>\<open>groupby(['product_id', 'name', 'category'])\<close>: NaN when a part is.\<close>

definition product_key :: "sale \<times> product \<Rightarrow> (int \<times> string \<times> string) option" where
  "product_key sp =
     (case (p_name (snd sp), p_category (snd sp)) of
        (Some n, Some c) \<Rightarrow> Some (s_product_id (fst sp), n, c)
      | _ \<Rightarrow> None)"

text \<open>The grouped product table of lines 146 to 151, before it is sorted.\<close>

definition product_groups :: "product list \<Rightarrow> sale list \<Rightarrow> top_product_row list" where
  "product_groups ps ss =
     (let sales_with_product = merge_on s_product_id p_id ss ps
      in map (\<lambda>((pid, n, c), rows).
            \<lparr>tp_product_id = pid, tp_name = n, tp_category = c,
             tp_total_quantity_sold = round2 (col_sum (map (\<lambda>(s, p). s_quantity s) rows)),
             tp_total_revenue = round2 (col_sum (map (\<lambda>(s, p). s_total_amount s) rows)),
             tp_number_of_sales = length rows\<rparr>)
           (groupby product_key sales_with_product))"

definition top_products_of :: "(rat list \<Rightarrow> nat list) \<Rightarrow> product list \<Rightarrow> sale list \<Rightarrow> top_product_row list" where
  "top_products_of argsort ps ss =
     take 20 (sort_values_desc argsort tp_total_revenue (product_groups ps ss))"

definition category_performance_of ::
  "(rat list \<Rightarrow> nat list) \<Rightarrow> product list \<Rightarrow> sale list \<Rightarrow> (string \<times> category_row) list" where
  "category_performance_of argsort ps ss =
     (let sales_with_product = merge_on s_product_id p_id ss ps
      in sort_values_desc argsort (\<lambda>(c, row). cp_total_revenue row)
           (map (\<lambda>(c, rows).
              (c,
               \<lparr>cp_total_revenue = round2 (col_sum (map (\<lambda>(s, p). s_total_amount s) rows)),
                cp_avg_order_value =
                  map_option round2 (col_mean (map (\<lambda>(s, p). s_total_amount s) rows)),
                cp_total_quantity = round2 (col_sum (map (\<lambda>(s, p). s_quantity s) rows)),
                cp_number_of_sales = length rows\<rparr>))
             (groupby (\<lambda>(s, p). p_category p) sales_with_product)))"

text \<open>The timestamp of a converted date cell; NaT has none.\<close>

fun stamp :: "date_cell \<Rightarrow> int option" where
  "stamp (Timestamp t) = Some t"
| "stamp d = None"

text \<open>A day in nanoseconds; \<^verbatim>\<open>.dt.days\<close> is the floor of a time difference in days.\<close>

definition ns_per_day :: int where
  "ns_per_day = 86400000000000"

definition days_between :: "int \<Rightarrow> int \<Rightarrow> int" where
  "days_between now t = (now - t) div ns_per_day"

text \<open>\<^verbatim>\<open>pd.cut(age, bins)\<close>: the index of the interval, open on the left and closed on
  the right, that holds the age; NaN outside of all.\<close>

fun cut_bins :: "rat list \<Rightarrow> rat \<Rightarrow> nat option" where
  "cut_bins (lo # hi # bs) a =
     (if lo < a \<and> a \<le> hi then Some 0 else map_option Suc (cut_bins (hi # bs) a))"
| "cut_bins bs a = None"

definition age_bins :: "rat list" where
  "age_bins = [0, 25, 35, 50, 65, 100]"

definition age_labels :: "string list" where
  "age_labels = [''18-25'', ''26-35'', ''36-50'', ''51-65'', ''65+'']"

definition age_group_of :: "rat option \<Rightarrow> nat option" where
  "age_group_of a = (case a of None \<Rightarrow> None | Some v \<Rightarrow> cut_bins age_bins v)"

text \<open>\<^verbatim>\<open>customer_metrics\<close> (lines 164 to 187): one row for every customer id of the sales
  table that the customer table has. \<open>now\<close> is \<^verbatim>\<open>pd.Timestamp.now()\<close>.\<close>

definition customer_metrics_of :: "int \<Rightarrow> customer list \<Rightarrow> sale list \<Rightarrow> customer_metric list" where
  "customer_metrics_of now cs ss =
     map (\<lambda>((cid, rows), c).
        let last_purchase = col_max (map (\<lambda>s. stamp (s_date s)) rows);
            days = map_option (days_between now) last_purchase
        in \<lparr>cm_id = c_id c,
            cm_total_spent = round2 (col_sum (map s_total_amount rows)),
            cm_avg_order_value = map_option round2 (col_mean (map s_total_amount rows)),
            cm_number_of_orders = col_count (map s_total_amount rows),
            cm_first_purchase = col_min (map (\<lambda>s. stamp (s_date s)) rows),
            cm_last_purchase = last_purchase,
            cm_age = c_age c,
            cm_region = c_region c,
            cm_days_since_last_purchase = days,
            cm_is_churned = (case days of None \<Rightarrow> False | Some d \<Rightarrow> 90 < d),
            cm_age_group = age_group_of (c_age c)\<rparr>)
       (merge_on fst c_id (groupby (\<lambda>s. Some (s_customer_id s)) ss) cs)"

definition age_group_analysis_of :: "customer_metric list \<Rightarrow> (string \<times> age_group_row) list" where
  "age_group_analysis_of cms =
     map (\<lambda>(g, rows).
        (age_labels ! g,
         \<lparr>ag_avg_spent = map_option round2 (col_mean (map (\<lambda>r. Some (cm_total_spent r)) rows)),
          ag_total_spent = round2 (sum_list (map cm_total_spent rows)),
          ag_avg_orders =
            map_option round2 (col_mean (map (\<lambda>r. Some (of_nat (cm_number_of_orders r))) rows)),
          ag_churn_rate = map_option round2 (bool_mean (map cm_is_churned rows))\<rparr>))
       (groupby cm_age_group cms)"

definition customer_metrics_summary_of :: "customer_metric list \<Rightarrow> customer_summary" where
  "customer_metrics_summary_of cms =
     \<lparr>total_customers = length cms,
      active_customers = length (filter (\<lambda>r. \<not> cm_is_churned r) cms),
      churned_customers = length (filter cm_is_churned cms),
      churn_rate = bool_mean (map cm_is_churned cms),
      avg_customer_value = col_mean (map (\<lambda>r. Some (cm_total_spent r)) cms),
      avg_order_value = col_mean (map cm_avg_order_value cms)\<rparr>"

text \<open>The inventory metrics (lines 197 to 206), on the inner join of the inventory with
  the products.\<close>

definition low_stock_products_of :: "product list \<Rightarrow> inventory list \<Rightarrow> low_stock_row list" where
  "low_stock_products_of ps ivs =
     map (\<lambda>(r, p).
        \<lparr>ls_product_id = i_product_id r, ls_name = p_name p, ls_category = p_category p,
         ls_current_stock = i_current_stock r, ls_reorder_level = i_reorder_level r,
         ls_turnover_rate = i_turnover_rate r\<rparr>)
       (filter (\<lambda>(r, p).
           case (i_current_stock r, i_reorder_level r) of
             (Some stock, Some level) \<Rightarrow> stock \<le> level
           | _ \<Rightarrow> False)
          (merge_on i_product_id p_id ivs ps))"

definition turnover_analysis_of :: "product list \<Rightarrow> inventory list \<Rightarrow> (string \<times> turnover_row) list" where
  "turnover_analysis_of ps ivs =
     map (\<lambda>(c, rows).
        (c,
         \<lparr>avg_turnover = map_option round2 (col_mean (map (\<lambda>(r, p). i_turnover_rate r) rows)),
          min_turnover = map_option round2 (col_min (map (\<lambda>(r, p). i_turnover_rate r) rows)),
          max_turnover = map_option round2 (col_max (map (\<lambda>(r, p). i_turnover_rate r) rows))\<rparr>))
       (groupby (\<lambda>(r, p). p_category p) (merge_on i_product_id p_id ivs ps))"

definition inventory_insights_of :: "product list \<Rightarrow> inventory list \<Rightarrow> inventory_insights" where
  "inventory_insights_of ps ivs =
     \<lparr>low_stock_products = low_stock_products_of ps ivs,
      total_products_at_risk = length (low_stock_products_of ps ivs),
      turnover_by_category = turnover_analysis_of ps ivs\<rparr>"

section \<open>float64\<close>

text \<open>
  The value of a float64 cell that holds the number \<open>x\<close>: the double nearest to \<open>x\<close>, a
  tie going to the even significand. A double has a significand of 53 bits, so it is a
  whole multiple of \<open>2 powi (e - 52)\<close>, where \<open>e\<close> is the exponent of \<open>x\<close>
  (\<open>2 powi e \<le> \<bar>x\<bar> < 2 powi (e + 1)\<close>). Overflow beyond \<open>2 powi 1024\<close>, the subnormal
  numbers below \<open>2 powi (- 1022)\<close> and the sign of zero are not modelled.
\<close>

definition exponent :: "rat \<Rightarrow> int" where
  "exponent x =
     (let (p, q) = quotient_of \<bar>x\<bar>; e = bitlen p - bitlen q
      in if 2 powi e \<le> \<bar>x\<bar> then e else e - 1)"

definition f64 :: "rat \<Rightarrow> rat" where
  "f64 x =
     (if x = 0 then 0
      else let e = exponent x - 52
           in of_int (round_half_even (x / 2 powi e)) * 2 powi e)"

text \<open>The float64 sum of two doubles.\<close>

definition fadd :: "rat \<Rightarrow> rat \<Rightarrow> rat" where
  "fadd a b = f64 (a + b)"

text \<open>
  \<^verbatim>\<open>Series.mean()\<close> of a float64 column divides numpy's sum of the column by the number
  of its cells. numpy adds a column of fewer than 8 cells from left to right; a column of
  up to 128 cells in eight running sums (cell \<open>i\<close> goes to sum \<open>i mod 8\<close>), which it adds
  up in pairs before it adds the cells left over; a longer column in two parts, the first
  of a length that is a multiple of 8.
\<close>

fun tree8 :: "rat list \<Rightarrow> rat" where
  "tree8 [r0, r1, r2, r3, r4, r5, r6, r7] =
     fadd (fadd (fadd r0 r1) (fadd r2 r3)) (fadd (fadd r4 r5) (fadd r6 r7))"
| "tree8 rs = 0"

function accumulate8 :: "rat list \<Rightarrow> rat list \<Rightarrow> rat list \<times> rat list" where
  "accumulate8 r ys =
     (if length ys < 8 then (r, ys)
      else accumulate8 (map2 fadd r (take 8 ys)) (drop 8 ys))"
  by pat_completeness auto
termination
  by (relation "measure (\<lambda>(r, ys). length ys)") auto

function np_sum :: "rat list \<Rightarrow> rat" where
  "np_sum xs =
     (if length xs < 8 then foldl fadd 0 xs
      else if length xs \<le> 128 then
        (case accumulate8 (take 8 xs) (drop 8 xs) of (r, rest) \<Rightarrow> foldl fadd (tree8 r) rest)
      else
        (let n2 = length xs div 2 - (length xs div 2) mod 8
         in fadd (np_sum (take n2 xs)) (np_sum (drop n2 xs))))"
  by pat_completeness auto
termination
  by (relation "measure length") auto

declare accumulate8.simps [simp del] np_sum.simps [simp del]

definition np_mean :: "rat list \<Rightarrow> rat option" where
  "np_mean xs = (if xs = [] then None else Some (f64 (np_sum xs / of_nat (length xs))))"



section \<open>\<open>generate_business_insights\<close>\<close>

text \<open>
  \<^verbatim>\<open>Series.idxmax()\<close>: the label of the first greatest value, NaN skipped. On an empty
  column pandas raises \<^verbatim>\<open>ValueError\<close>; on a column of NaN only it raises too (a
  \<^verbatim>\<open>ValueError\<close> in pandas 3, a \<^verbatim>\<open>KeyError\<close> at the following \<^verbatim>\<open>.loc\<close> before).
\<close>

fun first_max :: "'k \<times> rat \<Rightarrow> ('k \<times> rat option) list \<Rightarrow> 'k \<times> rat" where
  "first_max best [] = best"
| "first_max best ((k, None) # xs) = first_max best xs"
| "first_max best ((k, Some v) # xs) =
     (if snd best < v then first_max (k, v) xs else first_max best xs)"

fun idxmax :: "('k \<times> rat option) list \<Rightarrow> error + 'k" where
  "idxmax [] = Inl (ValueError ''attempt to get argmax of an empty sequence'')"
| "idxmax ((k, None) # xs) = idxmax xs"
| "idxmax ((k, Some v) # xs) = Inr (fst (first_max (k, v) xs))"

text \<open>\<^verbatim>\<open>table.loc[label]\<close> on a table whose labels are unique, as those of a grouped
  table are.\<close>

definition loc :: "(string \<times> 'r) list \<Rightarrow> string \<Rightarrow> error + 'r" where
  "loc table label = (case map_of table label of None \<Rightarrow> Inl (KeyError label) | Some r \<Rightarrow> Inr r)"

text \<open>Below, \<open>rbr\<close>, \<open>cp\<close>, \<open>aga\<close>, \<open>cms\<close> and \<open>lsp\<close> are the arguments
  \<^verbatim>\<open>revenue_by_region\<close>, \<^verbatim>\<open>category_performance\<close>, \<^verbatim>\<open>age_group_analysis\<close>,
  \<^verbatim>\<open>customer_metrics\<close> and \<^verbatim>\<open>low_stock_products\<close> of the source.\<close>

definition mk_insight :: "string \<Rightarrow> string \<Rightarrow> string \<Rightarrow> insight" where
  "mk_insight t i c = \<lparr>ins_title = t, ins_impact = i, ins_category = c\<rparr>"

text \<open>
  Lines 250 to 262. The revenues are float64 cells; the mean, the product with the double
  nearest to 1.2 and the comparison are those of float64.
\<close>

definition regional_insights :: "(string \<times> region_row) list \<Rightarrow> error + insight list" where
  "regional_insights rbr =
     (case idxmax (map (\<lambda>(k, r). (k, Some (f64 (rr_total_revenue r)))) rbr) of
        Inl e \<Rightarrow> Inl e
      | Inr top_region \<Rightarrow>
          (case loc rbr top_region of
             Inl e \<Rightarrow> Inl e
           | Inr row \<Rightarrow>
               let top_region_revenue = f64 (rr_total_revenue row);
                   avg_revenue = np_mean (map (\<lambda>(k, r). f64 (rr_total_revenue r)) rbr)
               in if cell_holds (\<lambda>avg. f64 (avg * f64 (12 / 10)) < top_region_revenue) avg_revenue
                  then Inr [mk_insight ''Regional Performance Leader'' ''High'' ''Regional Analysis'']
                  else Inr []))"

text \<open>Lines 264 to 275.\<close>

definition category_insights :: "(string \<times> category_row) list \<Rightarrow> error + insight list" where
  "category_insights cp =
     (case idxmax (map (\<lambda>(k, r). (k, Some (cp_total_revenue r))) cp) of
        Inl e \<Rightarrow> Inl e
      | Inr top_category \<Rightarrow>
          (case loc cp top_category of
             Inl e \<Rightarrow> Inl e
           | Inr row \<Rightarrow> Inr [mk_insight ''Category Dominance'' ''High'' ''Category Performance'']))"

text \<open>Lines 277 to 288.\<close>

definition age_insights :: "(string \<times> age_group_row) list \<Rightarrow> error + insight list" where
  "age_insights aga =
     (if aga \<noteq> []
      then (case idxmax (map (\<lambda>(k, r). (k, ag_avg_spent r)) aga) of
              Inl e \<Rightarrow> Inl e
            | Inr highest_spending_group \<Rightarrow>
                (case loc aga highest_spending_group of
                   Inl e \<Rightarrow> Inl e
                 | Inr row \<Rightarrow>
                     Inr [mk_insight ''High-Value Customer Segment'' ''Medium''
                            ''Customer Segmentation'']))
      else Inr [])"

text \<open>Lines 290 to 301. The most affected category goes into the description only.\<close>

definition inventory_alerts :: "low_stock_row list \<Rightarrow> insight list" where
  "inventory_alerts lsp =
     (if 0 < length lsp
      then [mk_insight ''Inventory Risk Alert'' ''Critical'' ''Inventory Management'']
      else [])"

text \<open>Lines 303 to 312.\<close>

definition churn_insights :: "customer_metric list \<Rightarrow> insight list" where
  "churn_insights cms =
     (let churn_rate = bool_mean (map cm_is_churned cms)
      in if cell_holds (\<lambda>r. 3 / 10 < r) churn_rate
         then [mk_insight ''Customer Retention Concern'' ''High'' ''Customer Retention'']
         else [])"

definition generate_business_insights ::
  "(string \<times> region_row) list \<Rightarrow> (string \<times> category_row) list \<Rightarrow>
   (string \<times> age_group_row) list \<Rightarrow> customer_metric list \<Rightarrow> low_stock_row list \<Rightarrow>
   error + insight list" where
  "generate_business_insights rbr cp aga cms lsp =
     (case regional_insights rbr of
        Inl e \<Rightarrow> Inl e
      | Inr i1 \<Rightarrow>
     (case category_insights cp of
        Inl e \<Rightarrow> Inl e
      | Inr i2 \<Rightarrow>
     (case age_insights aga of
        Inl e \<Rightarrow> Inl e
      | Inr i3 \<Rightarrow>
          Inr (i1 @ i2 @ i3 @ inventory_alerts lsp @
               churn_insights cms))))"

text \<open>Whether a call returned a list that holds an insight of the given title.\<close>

definition emits :: "string \<Rightarrow> error + insight list \<Rightarrow> bool" where
  "emits t r = (case r of Inl e \<Rightarrow> False | Inr ins \<Rightarrow> t \<in> set (map ins_title ins))"

section \<open>\<open>generate_metrics\<close>, the method\<close>

text \<open>
  The date column must hold timestamps: on a column of text the source cannot pass
  line 209 (\<^verbatim>\<open>.dt\<close> raises \<^verbatim>\<open>AttributeError\<close>, unless an earlier line has raised
  already), and it has changed nothing by then. An exception of
  \<^verbatim>\<open>generate_business_insights\<close> leaves \<^verbatim>\<open>processed_data\<close> as it was.
\<close>

fun converted :: "date_cell \<Rightarrow> bool" where
  "converted (DateText s) = False"
| "converted d = True"

definition generate_metrics :: "(rat list \<Rightarrow> nat list) \<Rightarrow> int \<Rightarrow> pipeline \<Rightarrow> error option \<times> pipeline" where
  "generate_metrics argsort now st =
     (if \<not> loaded st
      then (Some (ValueError ''Data must be loaded and cleaned before generating metrics.''), st)
      else
        let cs = the (customers_df st);
            ps = the (products_df st);
            ss = the (sales_df st);
            ivs = the (inventory_df st)
        in if \<not> list_all (\<lambda>s. converted (s_date s)) ss
           then (Some (AttributeError ''Can only use .dt accessor with datetimelike values''), st)
           else
             let revenue_by_region = revenue_by_region_of cs ss;
                 category_performance = category_performance_of argsort ps ss;
                 customer_metrics = customer_metrics_of now cs ss;
                 age_group_analysis = age_group_analysis_of customer_metrics;
                 low_stock_products = low_stock_products_of ps ivs
             in case generate_business_insights revenue_by_region category_performance
                       age_group_analysis customer_metrics low_stock_products of
                  Inl e \<Rightarrow> (Some e, st)
                | Inr insights \<Rightarrow>
                    (None,
                     st\<lparr>processed_data := Some
                       \<lparr>revenue_by_region = revenue_by_region,
                        top_products = top_products_of argsort ps ss,
                        category_performance = category_performance,
                        customer_metrics_summary = customer_metrics_summary_of customer_metrics,
                        age_group_analysis = age_group_analysis,
                        inventory_insights = inventory_insights_of ps ivs,
                        business_insights = insights\<rparr>\<rparr>))"

section \<open>Example inputs\<close>

text \<open>The scenario of the specification: two customers, two products, two sales and an
  empty inventory table.\<close>

definition example_parse :: "string \<Rightarrow> int option" where
  "example_parse s =
     (if s = ''2024-01-10'' then Some 1704844800000000000
      else if s = ''2024-01-11'' then Some 1704931200000000000
      else None)"

definition example_raw :: pipeline where
  "example_raw =
     \<lparr>customers_df = Some
        [\<lparr>c_id = 1, c_name = Some ''Ann'', c_age = Some 17, c_region = Some ''South'',
          c_created_at = None\<rparr>,
         \<lparr>c_id = 2, c_name = Some ''Bob'', c_age = Some 30, c_region = Some ''North'',
          c_created_at = None\<rparr>],
      products_df = Some
        [\<lparr>p_id = 10, p_name = Some ''Pen'', p_category = Some ''Office'', p_price = Some (- 5),
          p_supplier = None, p_created_at = None\<rparr>,
         \<lparr>p_id = 11, p_name = Some ''Novel'', p_category = Some ''Books'', p_price = Some 20,
          p_supplier = None, p_created_at = None\<rparr>],
      sales_df = Some
        [\<lparr>s_id = 100, s_customer_id = 2, s_product_id = 11, s_date = DateText ''2024-01-10'',
          s_quantity = Some 2, s_unit_price = Some 20, s_total_amount = Some 40\<rparr>,
         \<lparr>s_id = 101, s_customer_id = 1, s_product_id = 10, s_date = DateText ''2024-01-11'',
          s_quantity = Some 1, s_unit_price = Some 5, s_total_amount = Some 5\<rparr>],
      inventory_df = Some [],
      processed_data = None\<rparr>"

text \<open>A run date: 2024-06-01, as text and as a timestamp.\<close>

definition example_today :: string where
  "example_today = ''2024-06-01''"

definition example_now :: int where
  "example_now = 1717200000000000000"

text \<open>The same object before the inventory table has been loaded.\<close>

definition example_unloaded :: pipeline where
  "example_unloaded = example_raw\<lparr>inventory_df := None\<rparr>"

definition example_no_sales :: pipeline where
  "example_no_sales = example_raw\<lparr>sales_df := Some []\<rparr>"

definition example_regions_equal :: "(string \<times> region_row) list" where
  "example_regions_equal =
     [(''North'', \<lparr>rr_total_revenue = 50, rr_total_sales = 1, rr_avg_order_value = Some 50\<rparr>),
      (''South'', \<lparr>rr_total_revenue = 50, rr_total_sales = 2, rr_avg_order_value = Some 25\<rparr>)]"


definition example_categories :: "(string \<times> category_row) list" where
  "example_categories =
     [(''Books'', \<lparr>cp_total_revenue = 100, cp_avg_order_value = Some 50, cp_total_quantity = 3,
        cp_number_of_sales = 2\<rparr>)]"

text \<open>Customer rows of which only the churn flag matters: \<open>k\<close> churned, then \<open>n\<close> active.\<close>

definition example_customer :: "bool \<Rightarrow> customer_metric" where
  "example_customer churned =
     \<lparr>cm_id = 1, cm_total_spent = 10, cm_avg_order_value = Some 10, cm_number_of_orders = 1,
      cm_first_purchase = None, cm_last_purchase = None, cm_age = Some 30,
      cm_region = Some ''North'', cm_days_since_last_purchase = None,
      cm_is_churned = churned, cm_age_group = Some 1\<rparr>"

definition example_customers :: "nat \<Rightarrow> nat \<Rightarrow> customer_metric list" where
  "example_customers k n = replicate k (example_customer True) @ replicate n (example_customer False)"



text \<open>
  An inventory table of two rows: one of a product that is in no product table, with a
  negative stock and no turnover rate, and one of the cleaned product 11, at risk.
\<close>

definition example_orphan :: pipeline where
  "example_orphan =
     example_raw\<lparr>inventory_df := Some
       [\<lparr>i_id = 7, i_product_id = 99, i_current_stock = Some (- 3), i_reorder_level = Some 5,
         i_max_stock = Some 50, i_turnover_rate = None, i_last_updated = None\<rparr>,
        \<lparr>i_id = 8, i_product_id = 11, i_current_stock = Some 2, i_reorder_level = Some 5,
         i_max_stock = Some 40, i_turnover_rate = Some 4, i_last_updated = None\<rparr>]\<rparr>"

text \<open>Two cleaned customers of whom one has bought.\<close>

definition example_idle :: pipeline where
  "example_idle =
     \<lparr>customers_df = Some
        [\<lparr>c_id = 1, c_name = Some ''Ann'', c_age = Some 40, c_region = Some ''South'',
          c_created_at = None\<rparr>,
         \<lparr>c_id = 2, c_name = Some ''Bob'', c_age = Some 30, c_region = Some ''North'',
          c_created_at = None\<rparr>],
      products_df = Some
        [\<lparr>p_id = 11, p_name = Some ''Novel'', p_category = Some ''Books'', p_price = Some 20,
          p_supplier = None, p_created_at = None\<rparr>],
      sales_df = Some
        [\<lparr>s_id = 100, s_customer_id = 2, s_product_id = 11, s_date = DateText ''2024-01-10'',
          s_quantity = Some 2, s_unit_price = Some 20, s_total_amount = Some 40\<rparr>],
      inventory_df = Some [],
      processed_data = None\<rparr>"

text \<open>
  The churn rule in the words of the specification, for one customer: the days since
  the last purchase are those from the latest sale date of the customer to the run date
  (none when the customer has no dated sale), and a customer is churned when they exceed 90.
\<close>

definition has_sale :: "sale list \<Rightarrow> customer \<Rightarrow> bool" where
  "has_sale ss c \<longleftrightarrow> c_id c \<in> set (map s_customer_id ss)"

definition days_since_last_purchase :: "int \<Rightarrow> sale list \<Rightarrow> int \<Rightarrow> int option" where
  "days_since_last_purchase now ss cid =
     map_option (days_between now)
       (col_max (map (\<lambda>s. stamp (s_date s)) (filter (\<lambda>s. s_customer_id s = cid) ss)))"

definition churned :: "int \<Rightarrow> sale list \<Rightarrow> customer \<Rightarrow> bool" where
  "churned now ss c =
     (case days_since_last_purchase now ss (c_id c) of None \<Rightarrow> False | Some d \<Rightarrow> 90 < d)"

section \<open>What cleaned tables satisfy\<close>

text \<open>The customer table after \<open>clean_customers\<close>: unique ids, no missing name or region,
  every age present and between 18 and 100.\<close>

definition customers_clean :: "customer list \<Rightarrow> bool" where
  "customers_clean cs \<longleftrightarrow>
     distinct (map c_id cs) \<and>
     list_all (\<lambda>c. c_name c \<noteq> None \<and> c_region c \<noteq> None \<and>
        cell_holds (\<lambda>a. 18 \<le> a \<and> a \<le> 100) (c_age c)) cs"

definition products_clean :: "product list \<Rightarrow> bool" where
  "products_clean ps \<longleftrightarrow>
     distinct (map p_id ps) \<and>
     list_all (\<lambda>p. p_name p \<noteq> None \<and> p_category p \<noteq> None \<and> p_supplier p \<noteq> None \<and>
        cell_holds (\<lambda>x. 0 < x \<and> x \<le> 10000) (p_price p)) ps"

text \<open>The sales table after the row steps, with respect to the customer and product
  tables it was checked against.\<close>

definition sales_clean :: "customer list \<Rightarrow> product list \<Rightarrow> sale list \<Rightarrow> bool" where
  "sales_clean cs ps ss \<longleftrightarrow>
     distinct (map s_id ss) \<and>
     list_all (\<lambda>s. s_customer_id s \<in> set (map c_id cs) \<and> s_product_id s \<in> set (map p_id ps) \<and>
        cell_holds (\<lambda>q. 0 < q) (s_quantity s) \<and> cell_holds (\<lambda>a. 0 < a) (s_total_amount s)) ss"

text \<open>Lines 126 and 127 on one inventory row.\<close>

definition repair_inventory :: "inventory \<Rightarrow> inventory" where
  "repair_inventory r =
     r\<lparr>i_current_stock := clip_lower 0 (i_current_stock r),
       i_turnover_rate := fillna 1 (i_turnover_rate r)\<rparr>"

text \<open>
  What a cleaned inventory row is to be: the input row with a negative stock replaced by
  0 and a missing turnover rate by 1. Written without the operations of the code, to be
  compared with \<open>repair_inventory\<close>.
\<close>

definition clamped_defaulted :: "inventory \<Rightarrow> inventory" where
  "clamped_defaulted r =
     r\<lparr>i_current_stock :=
         (case i_current_stock r of None \<Rightarrow> None | Some x \<Rightarrow> Some (if x < 0 then 0 else x)),
       i_turnover_rate :=
         (case i_turnover_rate r of None \<Rightarrow> Some 1 | Some t \<Rightarrow> Some t)\<rparr>"

text \<open>The test of line 198 on one inventory row: \<^verbatim>\<open>current_stock <= reorder_level\<close>.\<close>

definition at_risk :: "inventory \<Rightarrow> bool" where
  "at_risk r \<longleftrightarrow>
     (case (i_current_stock r, i_reorder_level r) of
        (Some stock, Some level) \<Rightarrow> stock \<le> level
      | _ \<Rightarrow> False)"

definition inventory_clean :: "product list \<Rightarrow> inventory list \<Rightarrow> bool" where
  "inventory_clean ps ivs \<longleftrightarrow>
     list_all (\<lambda>p. p_id p \<in> set (map i_product_id ivs)) ps \<and>
     list_all (\<lambda>r. repair_inventory r = r) ivs"

text \<open>Referential closure of the sales table of a pipeline object.\<close>

definition referential_closure :: "pipeline \<Rightarrow> bool" where
  "referential_closure st \<longleftrightarrow>
     (case (customers_df st, products_df st, sales_df st) of
        (Some cs, Some ps, Some ss) \<Rightarrow>
          list_all (\<lambda>s. s_customer_id s \<in> set (map c_id cs) \<and>
                        s_product_id s \<in> set (map p_id ps)) ss
      | _ \<Rightarrow> False)"

section \<open>Cleaning: proofs\<close>

lemma set_drop_duplicates: "set (drop_duplicates key rs) \<subseteq> set rs"
  by (induction key rs rule: drop_duplicates.induct) auto

lemma keys_drop_duplicates: "key ` set (drop_duplicates key rs) = key ` set rs"
  by (induction key rs rule: drop_duplicates.induct) auto

lemma distinct_drop_duplicates: "distinct (map key (drop_duplicates key rs))"
proof (induction key rs rule: drop_duplicates.induct)
  case (1 key)
  show ?case by simp
next
  case (2 key r rs)
  have "key r \<notin> key ` set (drop_duplicates key (filter (\<lambda>x. key x \<noteq> key r) rs))"
    unfolding keys_drop_duplicates by auto
  with 2 show ?case by simp
qed

lemma drop_duplicates_distinct: "distinct (map key rs) \<Longrightarrow> drop_duplicates key rs = rs"
proof (induction rs)
  case Nil
  show ?case by simp
next
  case (Cons r rs)
  from Cons.prems have "key r \<notin> key ` set rs"
    by simp
  then have "\<forall>x\<in>set rs. key x \<noteq> key r"
    by (metis imageI)
  then have "filter (\<lambda>x. key x \<noteq> key r) rs = rs"
    by (simp add: filter_id_conv)
  with Cons show ?case by simp
qed

lemma fillna_Some [simp]: "fillna v (Some y) = Some y"
  by (simp add: fillna_def)

lemma fillna_not_None [simp]: "fillna v x \<noteq> None"
  by (simp add: fillna_def split: option.split)

lemma fillna_is_Some [simp]: "\<exists>y. fillna v x = Some y"
  by (simp add: fillna_def split: option.split)

lemma fillna_with_Some [simp]: "fillna_with m (Some y) = Some y"
  by (simp add: fillna_with_def)

lemma cell_holds_Some [simp]: "cell_holds P (Some v) = P v"
  by (simp add: cell_holds_def)

lemma cell_holds_None [simp]: "cell_holds P None = False"
  by (simp add: cell_holds_def)

lemma cell_holdsD: "cell_holds P x \<Longrightarrow> \<exists>v. x = Some v \<and> P v"
  by (cases x) auto

lemma customers_clean_clean: "customers_clean (clean_customers cs)"
  unfolding customers_clean_def clean_customers_def Let_def
  apply (intro conjI)
   apply (simp add: distinct_map_filter distinct_drop_duplicates comp_def)
  apply (auto simp: list_all_iff dest!: cell_holdsD)
  done

lemma clean_customers_fixed:
  assumes "customers_clean cs"
  shows "clean_customers cs = cs"
proof -
  from assms have dist: "distinct (map c_id cs)"
    and row: "\<And>c. c \<in> set cs \<Longrightarrow>
      (\<exists>n. c_name c = Some n) \<and> (\<exists>r. c_region c = Some r) \<and>
      (\<exists>a. c_age c = Some a \<and> 18 \<le> a \<and> a \<le> 100)"
    by (auto simp: customers_clean_def list_all_iff dest!: cell_holdsD)
  have 1: "map (\<lambda>c. c\<lparr>c_name := fillna v (c_name c)\<rparr>) cs = cs" for v
    by (rule map_idI) (use row in force)
  have 2: "map (\<lambda>c. c\<lparr>c_age := fillna_with m (c_age c)\<rparr>) cs = cs" for m
    by (rule map_idI) (use row in force)
  have 3: "map (\<lambda>c. c\<lparr>c_region := fillna v (c_region c)\<rparr>) cs = cs" for v
    by (rule map_idI) (use row in force)
  have 4: "filter (\<lambda>c. cell_holds (\<lambda>a. 18 \<le> a) (c_age c) \<and> cell_holds (\<lambda>a. a \<le> 100) (c_age c)) cs = cs"
    unfolding filter_id_conv using row by force
  show ?thesis
    unfolding clean_customers_def Let_def
    by (simp only: drop_duplicates_distinct [OF dist] 1 2 3 4)
qed


lemma products_clean_clean: "products_clean (clean_products ps)"
  unfolding products_clean_def clean_products_def Let_def
  apply (intro conjI)
   apply (simp add: distinct_map_filter distinct_drop_duplicates comp_def)
  apply (auto simp: list_all_iff dest!: cell_holdsD)
  done

lemma clean_products_fixed:
  assumes "products_clean ps"
  shows "clean_products ps = ps"
proof -
  from assms have dist: "distinct (map p_id ps)"
    and row: "\<And>p. p \<in> set ps \<Longrightarrow>
      (\<exists>n. p_name p = Some n) \<and> (\<exists>r. p_category p = Some r) \<and> (\<exists>r. p_supplier p = Some r) \<and>
      (\<exists>a. p_price p = Some a \<and> 0 < a \<and> a \<le> 10000)"
    by (auto simp: products_clean_def list_all_iff dest!: cell_holdsD)
  have 1: "map (\<lambda>p. p\<lparr>p_name := fillna v (p_name p)\<rparr>) ps = ps" for v
    by (rule map_idI) (use row in force)
  have 2: "map (\<lambda>p. p\<lparr>p_category := fillna v (p_category p)\<rparr>) ps = ps" for v
    by (rule map_idI) (use row in force)
  have 3: "map (\<lambda>p. p\<lparr>p_supplier := fillna v (p_supplier p)\<rparr>) ps = ps" for v
    by (rule map_idI) (use row in force)
  have 4: "filter (\<lambda>p. cell_holds (\<lambda>x. 0 < x) (p_price p) \<and> cell_holds (\<lambda>x. x \<le> 10000) (p_price p)) ps = ps"
    unfolding filter_id_conv using row by force
  show ?thesis
    unfolding clean_products_def Let_def
    by (simp only: drop_duplicates_distinct [OF dist] 1 2 3 4)
qed

lemma sales_clean_rows: "sales_clean cs ps (clean_sales_rows cs ps ss)"
  unfolding sales_clean_def clean_sales_rows_def Let_def
  apply (intro conjI)
   apply (simp add: distinct_map_filter distinct_drop_duplicates comp_def)
  apply (auto simp: list_all_iff)
  done

lemma clean_sales_rows_fixed:
  assumes "sales_clean cs ps ss"
  shows "clean_sales_rows cs ps ss = ss"
proof -
  from assms have dist: "distinct (map s_id ss)"
    and row: "\<And>s. s \<in> set ss \<Longrightarrow>
      s_customer_id s \<in> set (map c_id cs) \<and> s_product_id s \<in> set (map p_id ps) \<and>
      (\<exists>q. s_quantity s = Some q \<and> 0 < q) \<and> (\<exists>a. s_total_amount s = Some a \<and> 0 < a)"
    by (auto simp: sales_clean_def list_all_iff dest!: cell_holdsD)
  have 1: "filter (\<lambda>s. s_customer_id s \<in> set (map c_id cs) \<and> s_product_id s \<in> set (map p_id ps)) ss = ss"
    unfolding filter_id_conv using row by blast
  have 2: "map (\<lambda>s. s\<lparr>s_quantity := fillna v (s_quantity s)\<rparr>) ss = ss" for v
    by (rule map_idI) (use row in force)
  have 3: "filter (\<lambda>s. cell_holds (\<lambda>q. 0 < q) (s_quantity s)) ss = ss"
    unfolding filter_id_conv using row by force
  have 4: "filter (\<lambda>s. cell_holds (\<lambda>a. 0 < a) (s_total_amount s)) ss = ss"
    unfolding filter_id_conv using row by force
  show ?thesis
    unfolding clean_sales_rows_def Let_def
    by (simp only: drop_duplicates_distinct [OF dist] 1 2 3 4)
qed

text \<open>The date conversion changes the date column only, cell by cell.\<close>

lemma to_datetime_Inr:
  "to_datetime parse ds = Inr ds' \<Longrightarrow>
     list_all2 (\<lambda>d d'. to_datetime_cell parse d = Inr d') ds ds'"
  by (induction ds arbitrary: ds') (auto split: sum.splits)

lemma to_datetime_cell_converted: "to_datetime_cell parse d = Inr d' \<Longrightarrow> converted d'"
  by (cases d) (auto split: option.splits)

lemma to_datetime_converted: "list_all converted ds \<Longrightarrow> to_datetime parse ds = Inr ds"
proof (induction ds)
  case Nil
  show ?case by simp
next
  case (Cons d ds)
  then show ?case by (cases d) auto
qed

lemma convert_dates_Inr:
  assumes "convert_dates parse ss = Inr ss'"
  shows "list_all2 (\<lambda>s s'. s' = s\<lparr>s_date := s_date s'\<rparr> \<and> converted (s_date s')) ss ss'"
proof -
  from assms obtain ds where ds: "to_datetime parse (map s_date ss) = Inr ds"
    and ss': "ss' = map (\<lambda>(s, d). s\<lparr>s_date := d\<rparr>) (zip ss ds)"
    by (auto simp: convert_dates_def split: sum.splits)
  from to_datetime_Inr [OF ds]
  have l2: "list_all2 (\<lambda>d d'. to_datetime_cell parse d = Inr d') (map s_date ss) ds" .
  then have len: "length ss = length ds"
    by (auto dest: list_all2_lengthD)
  have conv: "\<And>d. d \<in> set ds \<Longrightarrow> converted d"
    using l2 by (auto simp: list_all2_conv_all_nth in_set_conv_nth dest: to_datetime_cell_converted)
  show ?thesis
    unfolding ss' list_all2_conv_all_nth using len conv by (auto simp: in_set_conv_nth)
qed

lemma convert_dates_fixed:
  assumes "list_all (\<lambda>s. converted (s_date s)) ss"
  shows "convert_dates parse ss = Inr ss"
proof -
  from assms have "list_all converted (map s_date ss)"
    by (simp add: list_all_iff)
  then have "to_datetime parse (map s_date ss) = Inr (map s_date ss)"
    by (rule to_datetime_converted)
  moreover have "map (\<lambda>(s, d). s\<lparr>s_date := d\<rparr>) (zip ss (map s_date ss)) = ss"
    by (induction ss) auto
  ultimately show ?thesis
    by (simp add: convert_dates_def)
qed

lemma convert_dates_sales_clean:
  assumes "convert_dates parse ss = Inr ss'" and "sales_clean cs ps ss"
  shows "sales_clean cs ps ss' \<and> list_all (\<lambda>s. converted (s_date s)) ss'"
proof -
  note l2 = convert_dates_Inr [OF assms(1)]
  then have len: "length ss = length ss'"
    by (rule list_all2_lengthD)
  from l2 have nth: "\<And>i. i < length ss' \<Longrightarrow> ss' ! i = (ss ! i)\<lparr>s_date := s_date (ss' ! i)\<rparr> \<and> converted (s_date (ss' ! i))"
    by (simp add: list_all2_conv_all_nth)
  have ids: "map s_id ss' = map s_id ss"
  proof (rule nth_equalityI)
    show "length (map s_id ss') = length (map s_id ss)" using len by simp
  next
    fix i assume "i < length (map s_id ss')"
    then have i: "i < length ss'" by simp
    from nth [OF i] have "s_id (ss' ! i) = s_id ((ss ! i)\<lparr>s_date := s_date (ss' ! i)\<rparr>)" by simp
    then show "map s_id ss' ! i = map s_id ss ! i" using i len by simp
  qed
  have rows: "\<And>s'. s' \<in> set ss' \<Longrightarrow> \<exists>s\<in>set ss. s' = s\<lparr>s_date := s_date s'\<rparr> \<and> converted (s_date s')"
    using nth len by (metis in_set_conv_nth)
  from assms(2) have dist: "distinct (map s_id ss)"
    and row: "\<And>s. s \<in> set ss \<Longrightarrow>
      s_customer_id s \<in> set (map c_id cs) \<and> s_product_id s \<in> set (map p_id ps) \<and>
      cell_holds (\<lambda>q. 0 < q) (s_quantity s) \<and> cell_holds (\<lambda>a. 0 < a) (s_total_amount s)"
    by (auto simp: sales_clean_def list_all_iff)
  show ?thesis
    unfolding sales_clean_def list_all_iff ids
  proof (intro conjI ballI)
    show "distinct (map s_id ss)" by (rule dist)
  next
    fix s' assume s': "s' \<in> set ss'"
    from rows [OF s'] obtain s where s: "s \<in> set ss" "s' = s\<lparr>s_date := s_date s'\<rparr>" "converted (s_date s')"
      by blast
    from row [OF s(1)] s(2)
    show "s_customer_id s' \<in> set (map c_id cs)" "s_product_id s' \<in> set (map p_id ps)"
      "cell_holds (\<lambda>q. 0 < q) (s_quantity s')" "cell_holds (\<lambda>a. 0 < a) (s_total_amount s')"
      by (metis sale.select_convs sale.surjective sale.update_convs(4))+
    from s(3) show "converted (s_date s')" .
  qed
qed


lemma clean_inventory_eq:
  "clean_inventory today ps ivs =
     map repair_inventory (ivs @ map (new_record today) (missing_inventory ps ivs))"
  by (simp add: clean_inventory_def repair_inventory_def Let_def comp_def)

lemma repair_inventory_idem: "repair_inventory (repair_inventory r) = repair_inventory r"
  by (cases "i_current_stock r"; cases "i_turnover_rate r")
     (simp_all add: repair_inventory_def clip_lower_def fillna_def)

lemma repair_inventory_product_id [simp]: "i_product_id (repair_inventory r) = i_product_id r"
  by (simp add: repair_inventory_def)

lemma new_record_product_id [simp]: "i_product_id (new_record today pid) = pid"
  by (simp add: new_record_def)

lemma inventory_clean_clean: "inventory_clean ps (clean_inventory today ps ivs)"
proof -
  have "p_id p \<in> set (map i_product_id (clean_inventory today ps ivs))" if "p \<in> set ps" for p
  proof (cases "p_id p \<in> set (map i_product_id ivs)")
    case True
    then show ?thesis
      by (auto simp: clean_inventory_eq comp_def)
  next
    case False
    with that have "p_id p \<in> set (missing_inventory ps ivs)"
      by (simp add: missing_inventory_def)
    then show ?thesis
      by (simp add: clean_inventory_eq comp_def image_Un image_image)
  qed
  then have 1: "list_all (\<lambda>p. p_id p \<in> set (map i_product_id (clean_inventory today ps ivs))) ps"
    by (simp add: list_all_iff)
  have 2: "list_all (\<lambda>r. repair_inventory r = r) (clean_inventory today ps ivs)"
    by (auto simp: clean_inventory_eq list_all_iff repair_inventory_idem)
  from 1 2 show ?thesis
    by (simp add: inventory_clean_def)
qed

lemma missing_inventory_clean: "inventory_clean ps ivs \<Longrightarrow> missing_inventory ps ivs = []"
  by (auto simp: inventory_clean_def missing_inventory_def list_all_iff filter_empty_conv)

lemma clean_inventory_fixed:
  assumes "inventory_clean ps ivs"
  shows "clean_inventory today ps ivs = ivs"
proof -
  from assms have "map repair_inventory ivs = ivs"
    by (intro map_idI) (simp add: inventory_clean_def list_all_iff)
  then show ?thesis
    by (simp add: clean_inventory_eq missing_inventory_clean [OF assms])
qed

text \<open>The state that a normal return of \<open>clean_data\<close> leaves.\<close>

lemma clean_data_None:
  assumes "clean_data parse today st = (None, st')"
  obtains cs ps ss ivs where
    "st' = st\<lparr>customers_df := Some cs, products_df := Some ps, sales_df := Some ss,
        inventory_df := Some ivs\<rparr>"
    "customers_clean cs" "products_clean ps" "sales_clean cs ps ss"
    "list_all (\<lambda>s. converted (s_date s)) ss" "inventory_clean ps ivs"
    "loaded st" "ivs = clean_inventory today ps (the (inventory_df st))"
    "cs = clean_customers (the (customers_df st))"
    "ps = clean_products (the (products_df st))"
proof -
  from assms have l: "loaded st"
    by (auto simp: clean_data_def split: if_splits)
  define cs where "cs = clean_customers (the (customers_df st))"
  define ps where "ps = clean_products (the (products_df st))"
  define ss0 where "ss0 = clean_sales_rows cs ps (the (sales_df st))"
  define ivs where "ivs = clean_inventory today ps (the (inventory_df st))"
  from assms l obtain ss where conv: "convert_dates parse ss0 = Inr ss"
    and st': "st' = st\<lparr>customers_df := Some cs, products_df := Some ps, sales_df := Some ss,
        inventory_df := Some ivs\<rparr>"
    by (auto simp: clean_data_def Let_def cs_def ps_def ss0_def ivs_def split: sum.splits)
  have "sales_clean cs ps ss0"
    unfolding ss0_def by (rule sales_clean_rows)
  from convert_dates_sales_clean [OF conv this]
  have "sales_clean cs ps ss" "list_all (\<lambda>s. converted (s_date s)) ss"
    by simp_all
  moreover have "customers_clean cs" "products_clean ps" "inventory_clean ps ivs"
    unfolding cs_def ps_def ivs_def
    by (rule customers_clean_clean products_clean_clean inventory_clean_clean)+
  ultimately show thesis
    using that st' l ivs_def cs_def ps_def by blast
qed

text \<open>
  C1. Whenever \<open>clean_data\<close> runs on loaded tables, the sales table it leaves refers to
  customers and products of the tables it leaves only: after a normal return, and also
  in the object as an unparseable date leaves it (the sales rows are then those after
  the quantity fill and the quantity and amount filters).
\<close>

theorem clean_data_referential_closure:
  assumes "loaded st" and "clean_data parse today st = (r, st')"
  shows "referential_closure st'"
proof (cases r)
  case None
  with assms(2) obtain cs ps ss ivs where
    st': "st' = st\<lparr>customers_df := Some cs, products_df := Some ps, sales_df := Some ss,
        inventory_df := Some ivs\<rparr>"
    and "sales_clean cs ps ss"
    by (auto elim: clean_data_None)
  then show ?thesis
    by (simp add: referential_closure_def sales_clean_def list_all_iff)
next
  case (Some e)
  define cs where "cs = clean_customers (the (customers_df st))"
  define ps where "ps = clean_products (the (products_df st))"
  define ss where "ss = clean_sales_rows cs ps (the (sales_df st))"
  from assms Some have
    "st' = st\<lparr>customers_df := Some cs, products_df := Some ps, sales_df := Some ss\<rparr>"
    by (auto simp: clean_data_def Let_def cs_def ps_def ss_def split: sum.splits)
  moreover have "sales_clean cs ps ss"
    unfolding ss_def by (rule sales_clean_rows)
  ultimately show ?thesis
    by (simp add: referential_closure_def sales_clean_def list_all_iff)
qed

theorem clean_data_referential_closure_witness:
  "loaded example_raw \<and>
   fst (clean_data example_parse example_today example_raw) = None \<and>
   sales_df (snd (clean_data example_parse example_today example_raw)) \<noteq> Some [] \<and>
   referential_closure (snd (clean_data example_parse example_today example_raw))"
proof -
  have l: "loaded example_raw"
    by code_simp
  have r: "fst (clean_data example_parse example_today example_raw) = None"
    by code_simp
  have n: "sales_df (snd (clean_data example_parse example_today example_raw)) \<noteq> Some []"
    by code_simp
  from clean_data_referential_closure [OF l surjective_pairing] l r n show ?thesis
    by simp
qed

text \<open>
  C5. \<open>clean_data\<close> is idempotent: run on the object that a normal return of
  \<open>clean_data\<close> left, whatever the date parser and the run date, it returns normally and
  leaves the object as it found it, and it finds no product without an inventory row.
\<close>

theorem clean_data_idempotent:
  assumes "clean_data parse today st = (None, st')"
  shows "clean_data parse' today' st' = (None, st') \<and>
         missing_inventory (the (products_df st')) (the (inventory_df st')) = []"
proof -
  from assms obtain cs ps ss ivs where
    st': "st' = st\<lparr>customers_df := Some cs, products_df := Some ps, sales_df := Some ss,
        inventory_df := Some ivs\<rparr>"
    and c: "customers_clean cs" and p: "products_clean ps" and s: "sales_clean cs ps ss"
    and d: "list_all (\<lambda>s. converted (s_date s)) ss" and i: "inventory_clean ps ivs"
    by (rule clean_data_None)
  have l: "loaded st'"
    by (simp add: st' loaded_def)
  show ?thesis
    unfolding clean_data_def Let_def
    by (simp add: l)
       (simp add: st' clean_customers_fixed [OF c] clean_products_fixed [OF p]
          clean_sales_rows_fixed [OF s] convert_dates_fixed [OF d]
          clean_inventory_fixed [OF i] missing_inventory_clean [OF i])
qed

theorem clean_data_idempotent_witness:
  "clean_data example_parse example_today example_raw =
     (None, snd (clean_data example_parse example_today example_raw)) \<and>
   snd (clean_data example_parse example_today example_raw) \<noteq> example_raw \<and>
   clean_data (\<lambda>s. None) ''2025-01-01'' (snd (clean_data example_parse example_today example_raw)) =
     (None, snd (clean_data example_parse example_today example_raw))"
proof -
  have r: "clean_data example_parse example_today example_raw =
     (None, snd (clean_data example_parse example_today example_raw))"
    by code_simp
  have n: "snd (clean_data example_parse example_today example_raw) \<noteq> example_raw"
    by code_simp
  from clean_data_idempotent [OF r, of "\<lambda>s. None" "''2025-01-01''"] r n show ?thesis
    by simp
qed

text \<open>
  C9. When one of the four tables is absent, \<open>clean_data\<close> and \<open>generate_metrics\<close> raise
  the \<open>ValueError\<close> of their first check (the PreconditionError of the specification)
  and leave the object, tables and \<open>processed_data\<close>, as it was.
\<close>

theorem precondition_errors:
  assumes "customers_df st = None \<or> products_df st = None \<or> sales_df st = None \<or>
           inventory_df st = None"
  shows "clean_data parse today st =
           (Some (ValueError ''Data must be loaded before cleaning. Call load_data() first.''), st) \<and>
         generate_metrics argsort now st =
           (Some (ValueError ''Data must be loaded and cleaned before generating metrics.''), st)"
  using assms by (auto simp: clean_data_def generate_metrics_def loaded_def)

theorem precondition_errors_witness:
  "(customers_df example_unloaded = None \<or> products_df example_unloaded = None \<or>
    sales_df example_unloaded = None \<or> inventory_df example_unloaded = None) \<and>
   clean_data example_parse example_today example_unloaded =
     (Some (ValueError ''Data must be loaded before cleaning. Call load_data() first.''),
      example_unloaded) \<and>
   generate_metrics argsort_stable example_now example_unloaded =
     (Some (ValueError ''Data must be loaded and cleaned before generating metrics.''),
      example_unloaded)"
proof -
  have h: "customers_df example_unloaded = None \<or> products_df example_unloaded = None \<or>
    sales_df example_unloaded = None \<or> inventory_df example_unloaded = None"
    by (simp add: example_unloaded_def)
  from precondition_errors [OF h] h show ?thesis
    by blast
qed

section \<open>The insight engine: proofs\<close>

lemma present_Nil [simp]: "present [] = []"
  by (simp add: present_def)

lemma present_Cons_Some [simp]: "present (Some v # xs) = v # present xs"
  by (simp add: present_def)

lemma present_Cons_None [simp]: "present (None # xs) = present xs"
  by (simp add: present_def)

lemma present_append [simp]: "present (xs @ ys) = present xs @ present ys"
  by (simp add: present_def)

lemma present_map_Some [simp]: "present (map (\<lambda>x. Some (f x)) xs) = map f xs"
  by (induction xs) simp_all

lemma col_mean_Nil [simp]: "col_mean [] = None"
  by (simp add: col_mean_def)

lemma col_mean_Some:
  "xs \<noteq> [] \<Longrightarrow>
     col_mean (map (\<lambda>x. Some (f x)) xs) = Some (sum_list (map f xs) / of_nat (length xs))"
  by (simp add: col_mean_def)

lemma bool_mean_eq:
  "bool_mean bs =
     (if bs = [] then None
      else Some (of_nat (length (filter (\<lambda>b. b) bs)) / of_nat (length bs)))"
proof -
  have "sum_list (map (\<lambda>b. if b then 1 else (0::rat)) bs) = of_nat (length (filter (\<lambda>b. b) bs))"
    by (induction bs) simp_all
  then show ?thesis
    by (simp add: bool_mean_def col_mean_Some)
qed

subsection \<open>idxmax\<close>

lemma first_max_mem:
  "(fst (first_max b xs), Some (snd (first_max b xs))) \<in> insert (fst b, Some (snd b)) (set xs)"
  by (induction b xs rule: first_max.induct) (auto split: if_splits)

lemma first_max_ge_start: "snd b \<le> snd (first_max b xs)"
proof (induction b xs rule: first_max.induct)
  case (3 best k v xs)
  then show ?case
    by (cases "snd best < v") (auto intro: order_trans less_imp_le)
qed simp_all

lemma first_max_ge: "(k, Some v) \<in> set xs \<Longrightarrow> v \<le> snd (first_max b xs)"
proof (induction b xs rule: first_max.induct)
  case (3 best k' v' xs)
  show ?case
  proof (cases "(k, Some v) = (k', Some v')")
    case True
    then show ?thesis
      using first_max_ge_start [of "(k', v')" xs] first_max_ge_start [of best xs]
      by (auto simp: not_less intro: order_trans)
  next
    case False
    with 3 show ?thesis by auto
  qed
qed simp_all

text \<open>On a column without NaN: \<open>idxmax\<close> raises on the empty table only, and gives the label
  of a row that holds the maximum.\<close>

lemma idxmax_total:
  assumes "tbl \<noteq> []"
  shows "\<exists>k r. idxmax (map (\<lambda>(k, r). (k, Some (f r))) tbl) = Inr k \<and> (k, r) \<in> set tbl \<and>
           f r = Max (set (map (\<lambda>(k, r). f r) tbl))"
proof -
  from assms obtain k0 r0 rest where tbl: "tbl = (k0, r0) # rest"
    by (cases tbl) auto
  let ?xs = "map (\<lambda>(k, r). (k, Some (f r))) rest"
  let ?m = "first_max (k0, f r0) ?xs"
  have idx: "idxmax (map (\<lambda>(k, r). (k, Some (f r))) tbl) = Inr (fst ?m)"
    by (simp add: tbl)
  from first_max_mem [of "(k0, f r0)" ?xs]
  have "(fst ?m, Some (snd ?m)) \<in> set (map (\<lambda>(k, r). (k, Some (f r))) tbl)"
    by (simp add: tbl)
  then obtain r where r: "(fst ?m, r) \<in> set tbl" "f r = snd ?m"
    by auto
  have "snd ?m \<in> set (map (\<lambda>(k, r). f r) tbl)"
    using r by force
  moreover have "v \<le> snd ?m" if "v \<in> set (map (\<lambda>(k, r). f r) tbl)" for v
  proof -
    from that obtain k' r' where kr: "(k', r') \<in> set tbl" "v = f r'"
      by auto
    show ?thesis
    proof (cases "(k', r') = (k0, r0)")
      case True
      with kr first_max_ge_start [of "(k0, f r0)" ?xs] show ?thesis by simp
    next
      case False
      with kr have "(k', Some v) \<in> set ?xs"
        by (force simp: tbl)
      then show ?thesis by (rule first_max_ge)
    qed
  qed
  ultimately have "Max (set (map (\<lambda>(k, r). f r) tbl)) = snd ?m"
    by (intro Max_eqI) auto
  with idx r show ?thesis
    by auto
qed

lemma loc_mem: "(k, r) \<in> set tbl \<Longrightarrow> \<exists>r'. loc tbl k = Inr r' \<and> (k, r') \<in> set tbl"
  by (cases "map_of tbl k") (auto simp: loc_def map_of_eq_None_iff dest: map_of_SomeD intro: rev_image_eqI)


lemma ins_title_mk [simp]: "ins_title (mk_insight t i c) = t"
  by (simp add: mk_insight_def)



section \<open>float64: proofs\<close>




















section \<open>The rules: proofs\<close>


lemma regional_insights_Inr:
  assumes "rbr \<noteq> []"
  shows "\<exists>i1. regional_insights rbr = Inr i1"
proof -
  from idxmax_total [OF assms(1), of "\<lambda>r. f64 (rr_total_revenue r)"] obtain k r where
    i: "idxmax (map (\<lambda>(k, r). (k, Some (f64 (rr_total_revenue r)))) rbr) = Inr k"
    and m: "(k, r) \<in> set rbr"
    by blast
  from loc_mem [OF m] obtain r' where l: "loc rbr k = Inr r'"
    by blast
  show ?thesis
    unfolding regional_insights_def by (simp add: i l Let_def)
qed

lemma category_insights_eq:
  assumes "cp \<noteq> []"
  shows "category_insights cp = Inr [mk_insight ''Category Dominance'' ''High'' ''Category Performance'']"
proof -
  from idxmax_total [OF assms(1), of cp_total_revenue] obtain k r where
    i: "idxmax (map (\<lambda>(k, r). (k, Some (cp_total_revenue r))) cp) = Inr k"
    and m: "(k, r) \<in> set cp"
    by blast
  from loc_mem [OF m] obtain r' where l: "loc cp k = Inr r'"
    by blast
  show ?thesis
    unfolding category_insights_def by (simp add: i l)
qed

lemma age_insights_eq:
  assumes "list_all (\<lambda>(k, r). ag_avg_spent r \<noteq> None) aga"
  shows "age_insights aga =
     Inr (if aga \<noteq> []
          then [mk_insight ''High-Value Customer Segment'' ''Medium'' ''Customer Segmentation'']
          else [])"
proof (cases "aga = []")
  case True
  then show ?thesis by (simp add: age_insights_def)
next
  case False
  from assms have "map (\<lambda>(k, r). (k, ag_avg_spent r)) aga =
      map (\<lambda>(k, r). (k, Some (the (ag_avg_spent r)))) aga"
    by (intro map_cong) (auto simp: list_all_iff)
  with idxmax_total [OF False, of "\<lambda>r. the (ag_avg_spent r)"] obtain k r where
    i: "idxmax (map (\<lambda>(k, r). (k, ag_avg_spent r)) aga) = Inr k"
    and m: "(k, r) \<in> set aga"
    by auto
  from loc_mem [OF m] obtain r' where l: "loc aga k = Inr r'"
    by blast
  show ?thesis
    unfolding age_insights_def by (simp add: False i l)
qed

lemma generate_business_insights_eq:
  assumes "regional_insights rbr = Inr i1" and "cp \<noteq> []"
    and "list_all (\<lambda>(k, r). ag_avg_spent r \<noteq> None) aga"
  shows "generate_business_insights rbr cp aga cms lsp =
     Inr (i1 @ [mk_insight ''Category Dominance'' ''High'' ''Category Performance''] @
          (if aga \<noteq> []
           then [mk_insight ''High-Value Customer Segment'' ''Medium'' ''Customer Segmentation'']
           else []) @
          inventory_alerts lsp @ churn_insights cms)"
  unfolding generate_business_insights_def
  by (simp add: assms(1) category_insights_eq [OF assms(2)] age_insights_eq [OF assms(3)])

lemma churn_insights_titles:
  "set (map ins_title (churn_insights cms)) =
     (if cms \<noteq> [] \<and> 3 / 10 < (of_nat (length (filter cm_is_churned cms)) :: rat) / of_nat (length cms)
      then {''Customer Retention Concern''} else {})"
proof -
  have "filter (\<lambda>b. b) (map cm_is_churned cms) = map cm_is_churned (filter cm_is_churned cms)"
    by (induction cms) simp_all
  then have "length (filter (\<lambda>b. b) (map cm_is_churned cms)) = length (filter cm_is_churned cms)"
    by simp
  then show ?thesis
    by (simp add: churn_insights_def bool_mean_eq Let_def)
qed

lemma inventory_alerts_titles:
  "set (map ins_title (inventory_alerts lsp)) =
     (if lsp \<noteq> [] then {''Inventory Risk Alert''} else {})"
  by (simp add: inventory_alerts_def)

lemma regional_insights_titles:
  assumes "regional_insights rbr = Inr i1"
  shows "set (map ins_title i1) \<subseteq> {''Regional Performance Leader''}"
  using assms unfolding regional_insights_def
  by (auto simp: Let_def split: sum.splits if_splits)

text \<open>
  C3. The claim has the engine return on every well-formed bundle, one with empty
  aggregates included. On the empty region and category tables of a run in which no sale
  survives cleaning it does not return: the \<^verbatim>\<open>idxmax\<close> of line 251 raises \<^verbatim>\<open>ValueError\<close>
  (that of line 265 would, too), and \<open>generate_metrics\<close> raises with it. The rules of
  lines 278 and 291 test for an empty table; the rules of lines 251 and 265 do not.
\<close>

theorem insights_raise_on_empty_tables:
  "generate_business_insights [] [] [] [] [] =
     Inl (ValueError ''attempt to get argmax of an empty sequence'') \<and>
   clean_data example_parse example_today example_no_sales =
     (None, snd (clean_data example_parse example_today example_no_sales)) \<and>
   fst (generate_metrics argsort_stable example_now
          (snd (clean_data example_parse example_today example_no_sales))) =
     Some (ValueError ''attempt to get argmax of an empty sequence'')"
  by code_simp

lemma emits_Inr [simp]: "emits t (Inr ins) \<longleftrightarrow> t \<in> set (map ins_title ins)"
  by (simp add: emits_def)

lemma emits_Inl [simp]: "\<not> emits t (Inl e)"
  by (simp add: emits_def)

lemma generate_business_insights_titles:
  assumes "regional_insights rbr = Inr i1" and "cp \<noteq> []"
    and "list_all (\<lambda>(k, r). ag_avg_spent r \<noteq> None) aga"
  shows "\<exists>ins. generate_business_insights rbr cp aga cms lsp = Inr ins \<and>
     set (map ins_title ins) =
       set (map ins_title i1) \<union> {''Category Dominance''} \<union>
       (if aga \<noteq> [] then {''High-Value Customer Segment''} else {}) \<union>
       (if lsp \<noteq> [] then {''Inventory Risk Alert''} else {}) \<union>
       (if cms \<noteq> [] \<and>
           3 / 10 < (of_nat (length (filter cm_is_churned cms)) :: rat) / of_nat (length cms)
        then {''Customer Retention Concern''} else {})"
proof -
  let ?age = "if aga \<noteq> []
       then [mk_insight ''High-Value Customer Segment'' ''Medium'' ''Customer Segmentation'']
       else []"
  let ?ins = "i1 @ [mk_insight ''Category Dominance'' ''High'' ''Category Performance''] @
       ?age @ inventory_alerts lsp @ churn_insights cms"
  have g: "generate_business_insights rbr cp aga cms lsp = Inr ?ins"
    by (rule generate_business_insights_eq [OF assms])
  have a: "set (map ins_title ?age) = (if aga \<noteq> [] then {''High-Value Customer Segment''} else {})"
    by simp
  have "set (map ins_title ?ins) =
      set (map ins_title i1) \<union> {''Category Dominance''} \<union> set (map ins_title ?age) \<union>
      set (map ins_title (inventory_alerts lsp)) \<union> set (map ins_title (churn_insights cms))"
    by (simp only: map_append set_append list.map list.set ins_title_mk Un_assoc)
  then have "set (map ins_title ?ins) =
      set (map ins_title i1) \<union> {''Category Dominance''} \<union>
       (if aga \<noteq> [] then {''High-Value Customer Segment''} else {}) \<union>
       (if lsp \<noteq> [] then {''Inventory Risk Alert''} else {}) \<union>
       (if cms \<noteq> [] \<and>
           3 / 10 < (of_nat (length (filter cm_is_churned cms)) :: rat) / of_nat (length cms)
        then {''Customer Retention Concern''} else {})"
    by (simp only: a inventory_alerts_titles churn_insights_titles)
  with g show ?thesis
    by blast
qed

text \<open>
  C7. On a bundle whose region and category tables are not empty (so that the engine
  returns; every age group has its average, as \<open>age_group_analysis_avg_spent\<close> shows for
  the table that \<open>generate_metrics\<close> builds), the list holds a "Customer Retention
  Concern" insight exactly when the share of churned rows of \<open>customer_metrics\<close> is
  greater than 3/10; at exactly 3/10 it holds none.
\<close>

theorem churn_concern_iff:
  assumes "rbr \<noteq> []" and "cp \<noteq> []" and "list_all (\<lambda>(k, r). ag_avg_spent r \<noteq> None) aga"
  shows "(emits ''Customer Retention Concern'' (generate_business_insights rbr cp aga cms lsp) \<longleftrightarrow>
            cms \<noteq> [] \<and>
            3 / 10 < (of_nat (length (filter cm_is_churned cms)) :: rat) / of_nat (length cms)) \<and>
         (10 * length (filter cm_is_churned cms) = 3 * length cms \<longrightarrow>
            \<not> emits ''Customer Retention Concern'' (generate_business_insights rbr cp aga cms lsp))"
proof -
  from regional_insights_Inr [OF assms(1)] obtain i1 where i1: "regional_insights rbr = Inr i1"
    by blast
  from regional_insights_titles [OF i1] have t1: "''Customer Retention Concern'' \<notin> set (map ins_title i1)"
    by auto
  from generate_business_insights_titles [OF i1 assms(2,3), of cms lsp] obtain ins where
    g: "generate_business_insights rbr cp aga cms lsp = Inr ins"
    and t: "set (map ins_title ins) =
       set (map ins_title i1) \<union> {''Category Dominance''} \<union>
       (if aga \<noteq> [] then {''High-Value Customer Segment''} else {}) \<union>
       (if lsp \<noteq> [] then {''Inventory Risk Alert''} else {}) \<union>
       (if cms \<noteq> [] \<and>
           3 / 10 < (of_nat (length (filter cm_is_churned cms)) :: rat) / of_nat (length cms)
        then {''Customer Retention Concern''} else {})"
    by blast
  have iff: "emits ''Customer Retention Concern'' (generate_business_insights rbr cp aga cms lsp) \<longleftrightarrow>
      cms \<noteq> [] \<and> 3 / 10 < (of_nat (length (filter cm_is_churned cms)) :: rat) / of_nat (length cms)"
    unfolding g emits_Inr t using t1 by (auto split: if_splits)
  have "\<not> (3 / 10 < (of_nat (length (filter cm_is_churned cms)) :: rat) / of_nat (length cms))"
    if eq: "10 * length (filter cm_is_churned cms) = 3 * length cms" and ne: "cms \<noteq> []"
  proof -
    from eq have "(of_nat (10 * length (filter cm_is_churned cms)) :: rat) = of_nat (3 * length cms)"
      by (rule arg_cong)
    then have "10 * (of_nat (length (filter cm_is_churned cms)) :: rat) = 3 * of_nat (length cms)"
      by simp
    moreover from ne have "(0::rat) < of_nat (length cms)"
      by simp
    ultimately have "(of_nat (length (filter cm_is_churned cms)) :: rat) / of_nat (length cms) = 3 / 10"
      by (simp add: field_simps)
    then show ?thesis by simp
  qed
  with iff show ?thesis
    by blast
qed

theorem churn_concern_iff_witness:
  "example_regions_equal \<noteq> [] \<and> example_categories \<noteq> [] \<and>
   list_all (\<lambda>(k, r). ag_avg_spent r \<noteq> None) [] \<and>
   10 * length (filter cm_is_churned (example_customers 3 7)) = 3 * length (example_customers 3 7) \<and>
   \<not> emits ''Customer Retention Concern''
       (generate_business_insights example_regions_equal example_categories []
          (example_customers 3 7) []) \<and>
   emits ''Customer Retention Concern''
       (generate_business_insights example_regions_equal example_categories []
          (example_customers 4 6) [])"
proof -
  have r: "example_regions_equal \<noteq> []" and c: "example_categories \<noteq> []"
    by (simp_all add: example_regions_equal_def example_categories_def)
  have a: "list_all (\<lambda>(k, r). ag_avg_spent r \<noteq> None) []"
    by simp
  have e: "10 * length (filter cm_is_churned (example_customers 3 7)) = 3 * length (example_customers 3 7)"
    by code_simp
  have p: "emits ''Customer Retention Concern''
       (generate_business_insights example_regions_equal example_categories []
          (example_customers 4 6) [])"
    by code_simp
  from churn_concern_iff [OF r c a, of "example_customers 3 7" "[]"] e
  have "\<not> emits ''Customer Retention Concern''
       (generate_business_insights example_regions_equal example_categories []
          (example_customers 3 7) [])"
    by blast
  with r c a e p show ?thesis
    by blast
qed



lemma set_present: "set (present xs) = {v. Some v \<in> set xs}"
  by (induction xs) (auto simp: present_def split: option.splits)

lemma groupby_keys: "map fst (groupby key rows) = sort (remdups (present (map key rows)))"
  by (simp add: groupby_def comp_def)

lemma distinct_groupby: "distinct (map fst (groupby key rows))"
  by (simp add: groupby_keys)

lemma groupby_mem:
  assumes "(k, g) \<in> set (groupby key rows)"
  shows "g = filter (\<lambda>r. key r = Some k) rows \<and> g \<noteq> []"
proof -
  from assms have g: "g = filter (\<lambda>r. key r = Some k) rows" and "k \<in> set (present (map key rows))"
    by (auto simp: groupby_def)
  then obtain r where "r \<in> set rows" "key r = Some k"
    by (auto simp: set_present)
  then have "filter (\<lambda>r. key r = Some k) rows \<noteq> []"
    by (auto simp: filter_empty_conv)
  with g show ?thesis by simp
qed

lemma distinct_revenue_by_region: "distinct (map fst (revenue_by_region_of cs ss))"
proof -
  have "map fst (revenue_by_region_of cs ss) =
      map fst (groupby (\<lambda>(s, c). c_region c) (merge_on s_customer_id c_id ss cs))"
    by (simp add: revenue_by_region_of_def Let_def comp_def split_def)
  then show ?thesis
    by (simp only: distinct_groupby)
qed

lemma age_group_analysis_avg_spent:
  "list_all (\<lambda>(k, r). ag_avg_spent r \<noteq> None) (age_group_analysis_of cms)"
proof -
  have "ag_avg_spent (snd x) \<noteq> None" if "x \<in> set (age_group_analysis_of cms)" for x
  proof -
    from that obtain g rows where m: "(g, rows) \<in> set (groupby cm_age_group cms)"
      and x: "ag_avg_spent (snd x) =
         map_option round2 (col_mean (map (\<lambda>r. Some (cm_total_spent r)) rows))"
      by (auto simp: age_group_analysis_of_def)
    from groupby_mem [OF m] have "rows \<noteq> []" by blast
    then show ?thesis
      by (simp add: x col_mean_Some)
  qed
  then show ?thesis
    by (auto simp: list_all_iff)
qed




section \<open>Inventory: proofs\<close>

lemma merge_on_filter_left:
  "merge_on lkey rkey (filter (\<lambda>l. lkey l \<in> rkey ` set rs) ls) rs = merge_on lkey rkey ls rs"
proof (induction ls)
  case Nil
  show ?case by (simp add: merge_on_def)
next
  case (Cons l ls)
  have "filter (\<lambda>r. rkey r = lkey l) rs = []" if "lkey l \<notin> rkey ` set rs"
    unfolding filter_empty_conv using that by (metis image_eqI)
  with Cons show ?case
    by (auto simp: merge_on_def)
qed

lemma merge_on_keys:
  "(l, r) \<in> set (merge_on lkey rkey ls rs) \<Longrightarrow> l \<in> set ls \<and> r \<in> set rs \<and> rkey r = lkey l"
  by (auto simp: merge_on_def)

lemma inventory_insights_orphans:
  "inventory_insights_of ps (filter (\<lambda>r. i_product_id r \<in> p_id ` set ps) ivs) =
     inventory_insights_of ps ivs"
  by (simp only: inventory_insights_of_def low_stock_products_of_def turnover_analysis_of_def
      merge_on_filter_left)

lemma generate_metrics_None:
  assumes "generate_metrics argsort now st = (None, st')"
  obtains cs ps ss ivs ins where
    "customers_df st = Some cs" "products_df st = Some ps" "sales_df st = Some ss"
    "inventory_df st = Some ivs"
    "generate_business_insights (revenue_by_region_of cs ss) (category_performance_of argsort ps ss)
       (age_group_analysis_of (customer_metrics_of now cs ss)) (customer_metrics_of now cs ss)
       (low_stock_products_of ps ivs) = Inr ins"
    "st' = st\<lparr>processed_data := Some
       \<lparr>revenue_by_region = revenue_by_region_of cs ss,
        top_products = top_products_of argsort ps ss,
        category_performance = category_performance_of argsort ps ss,
        customer_metrics_summary = customer_metrics_summary_of (customer_metrics_of now cs ss),
        age_group_analysis = age_group_analysis_of (customer_metrics_of now cs ss),
        inventory_insights = inventory_insights_of ps ivs,
        business_insights = ins\<rparr>\<rparr>"
proof -
  from assms have l: "loaded st"
    by (auto simp: generate_metrics_def split: if_splits)
  then obtain cs ps ss ivs where t: "customers_df st = Some cs" "products_df st = Some ps"
    "sales_df st = Some ss" "inventory_df st = Some ivs"
    by (auto simp: loaded_def)
  from assms l t that show thesis
    by (auto simp: generate_metrics_def Let_def split: if_splits sum.splits)
qed

lemma filter_unique:
  assumes "distinct (map rkey rs)" and "k \<in> rkey ` set rs"
  shows "\<exists>r. filter (\<lambda>r. rkey r = k) rs = [r]"
  using assms
proof (induction rs)
  case Nil
  then show ?case by simp
next
  case (Cons r rs)
  show ?case
  proof (cases "rkey r = k")
    case True
    with Cons.prems(1) have "k \<notin> rkey ` set rs"
      by auto
    then have "filter (\<lambda>r. rkey r = k) rs = []"
      unfolding filter_empty_conv by (metis image_eqI)
    with True show ?thesis by simp
  next
    case False
    with Cons.prems have "distinct (map rkey rs)" "k \<in> rkey ` set rs"
      by auto
    from Cons.IH [OF this] False show ?thesis by simp
  qed
qed

lemma merge_on_unique:
  assumes "distinct (map rkey rs)" and "\<forall>l\<in>set ls. lkey l \<in> rkey ` set rs"
  shows "map fst (merge_on lkey rkey ls rs) = ls"
  using assms(2)
proof (induction ls)
  case Nil
  show ?case by (simp add: merge_on_def)
next
  case (Cons l ls)
  then have "lkey l \<in> rkey ` set rs"
    by simp
  from filter_unique [OF assms(1) this] obtain r where "filter (\<lambda>r. rkey r = lkey l) rs = [r]"
    by blast
  moreover from Cons have "map fst (merge_on lkey rkey ls rs) = ls"
    by simp
  ultimately show ?case
    by (simp add: merge_on_def)
qed

lemma repair_inventory_eq: "repair_inventory r = clamped_defaulted r"
  by (cases "i_current_stock r"; cases "i_turnover_rate r")
    (simp_all add: repair_inventory_def clamped_defaulted_def clip_lower_def fillna_def max_def)

lemma set_merge_on:
  "set (merge_on lkey rkey ls rs) = {(l, r). l \<in> set ls \<and> r \<in> set rs \<and> rkey r = lkey l}"
  by (auto simp: merge_on_def)

lemma low_stock_products_at_risk:
  assumes "distinct (map p_id ps)"
  shows "map ls_product_id (low_stock_products_of ps ivs) =
     map i_product_id (filter (\<lambda>r. i_product_id r \<in> p_id ` set ps \<and> at_risk r) ivs)"
proof -
  have "map ls_product_id (low_stock_products_of ps ivs) =
      map i_product_id (filter at_risk (map fst (merge_on i_product_id p_id ivs ps)))"
    by (simp add: low_stock_products_of_def comp_def filter_map split_def at_risk_def)
  also have "map fst (merge_on i_product_id p_id ivs ps) =
      map fst (merge_on i_product_id p_id (filter (\<lambda>r. i_product_id r \<in> p_id ` set ps) ivs) ps)"
    by (simp only: merge_on_filter_left)
  also have "\<dots> = filter (\<lambda>r. i_product_id r \<in> p_id ` set ps) ivs"
    by (rule merge_on_unique [OF assms]) simp
  finally show ?thesis
    by (simp add: conj_commute)
qed

lemma turnover_analysis_categories:
  "set (map fst (turnover_analysis_of ps ivs)) =
     {c. \<exists>r\<in>set ivs. \<exists>p\<in>set ps. p_id p = i_product_id r \<and> p_category p = Some c}"
proof -
  have "map fst (turnover_analysis_of ps ivs) =
      map fst (groupby (\<lambda>(r, p). p_category p) (merge_on i_product_id p_id ivs ps))"
    by (simp add: turnover_analysis_of_def comp_def split_def)
  then show ?thesis
    by (simp only: groupby_keys) (force simp: set_present set_merge_on)
qed

text \<open>
  C10. Cleaning removes no inventory row: the cleaned inventory table starts with the
  rows of the input table, in their order, each with a negative stock replaced by 0 and
  a missing turnover rate by 1, whether or not its product is a cleaned product; no
  cleaned row has a negative stock or lacks a turnover rate. The inventory metrics leave
  out the rows whose product is no cleaned product: the at-risk list is that of the
  at-risk rows of cleaned products, the turnover table has the categories of the cleaned
  products that have a row, both are those of the table without the other rows, and they
  are what \<open>generate_metrics\<close> stores when it returns.
\<close>

theorem inventory_rows_survive:
  assumes "clean_data parse today st = (None, st')"
  shows "\<exists>ivs ivs' ps.
     inventory_df st = Some ivs \<and> inventory_df st' = Some ivs' \<and> products_df st' = Some ps \<and>
     length ivs \<le> length ivs' \<and>
     take (length ivs) ivs' = map clamped_defaulted ivs \<and>
     list_all (\<lambda>r. (case i_current_stock r of None \<Rightarrow> True | Some x \<Rightarrow> 0 \<le> x) \<and>
                   i_turnover_rate r \<noteq> None) ivs' \<and>
     map ls_product_id (low_stock_products_of ps ivs') =
       map i_product_id
         (filter (\<lambda>r. i_product_id r \<in> set (map p_id ps) \<and> at_risk r) ivs') \<and>
     set (map fst (turnover_analysis_of ps ivs')) =
       {c. \<exists>r\<in>set ivs'. \<exists>p\<in>set ps. p_id p = i_product_id r \<and> p_category p = Some c} \<and>
     inventory_insights_of ps ivs' =
       inventory_insights_of ps (filter (\<lambda>r. i_product_id r \<in> set (map p_id ps)) ivs') \<and>
     (\<forall>argsort now st''. generate_metrics argsort now st' = (None, st'') \<longrightarrow>
        (\<exists>m. processed_data st'' = Some m \<and>
             inventory_insights m = inventory_insights_of ps ivs'))"
proof -
  from assms obtain cs ps ss ivs' where
    st': "st' = st\<lparr>customers_df := Some cs, products_df := Some ps, sales_df := Some ss,
        inventory_df := Some ivs'\<rparr>"
    and pc: "products_clean ps"
    and l: "loaded st"
    and i: "ivs' = clean_inventory today ps (the (inventory_df st))"
    by (rule clean_data_None)
  from l obtain ivs where ivs: "inventory_df st = Some ivs"
    by (auto simp: loaded_def)
  from pc have d: "distinct (map p_id ps)"
    by (simp add: products_clean_def)
  have rows: "ivs' = map clamped_defaulted (ivs @ map (new_record today) (missing_inventory ps ivs))"
    unfolding i ivs option.sel clean_inventory_eq
    by (rule map_cong) (simp_all add: repair_inventory_eq)
  have len: "length ivs \<le> length ivs'"
    by (simp add: rows)
  have t: "take (length ivs) ivs' = map clamped_defaulted ivs"
    by (simp add: rows)
  have "(case i_current_stock (clamped_defaulted r) of None \<Rightarrow> True | Some x \<Rightarrow> 0 \<le> x) \<and>
      i_turnover_rate (clamped_defaulted r) \<noteq> None" for r
    by (cases "i_current_stock r"; cases "i_turnover_rate r")
      (simp_all add: clamped_defaulted_def)
  then have nn: "list_all (\<lambda>r. (case i_current_stock r of None \<Rightarrow> True | Some x \<Rightarrow> 0 \<le> x) \<and>
                   i_turnover_rate r \<noteq> None) ivs'"
    unfolding rows list_all_iff by (metis (no_types, lifting) imageE set_map)
  have low: "map ls_product_id (low_stock_products_of ps ivs') =
       map i_product_id
         (filter (\<lambda>r. i_product_id r \<in> set (map p_id ps) \<and> at_risk r) ivs')"
    using low_stock_products_at_risk [OF d, of ivs'] by simp
  have cat: "set (map fst (turnover_analysis_of ps ivs')) =
       {c. \<exists>r\<in>set ivs'. \<exists>p\<in>set ps. p_id p = i_product_id r \<and> p_category p = Some c}"
    by (rule turnover_analysis_categories)
  have orph: "inventory_insights_of ps ivs' =
       inventory_insights_of ps (filter (\<lambda>r. i_product_id r \<in> set (map p_id ps)) ivs')"
    by (simp add: inventory_insights_orphans)
  have gm: "\<exists>m. processed_data st'' = Some m \<and>
             inventory_insights m = inventory_insights_of ps ivs'"
    if g: "generate_metrics argsort now st' = (None, st'')" for argsort now st''
  proof -
    from g obtain cs2 ps2 ss2 ivs2 ins where
      "products_df st' = Some ps2" "inventory_df st' = Some ivs2"
      and st'': "st'' = st'\<lparr>processed_data := Some
         \<lparr>revenue_by_region = revenue_by_region_of cs2 ss2,
          top_products = top_products_of argsort ps2 ss2,
          category_performance = category_performance_of argsort ps2 ss2,
          customer_metrics_summary = customer_metrics_summary_of (customer_metrics_of now cs2 ss2),
          age_group_analysis = age_group_analysis_of (customer_metrics_of now cs2 ss2),
          inventory_insights = inventory_insights_of ps2 ivs2,
          business_insights = ins\<rparr>\<rparr>"
      by (rule generate_metrics_None)
    then have "ps2 = ps" "ivs2 = ivs'"
      by (simp_all add: st')
    then show ?thesis
      by (simp add: st'')
  qed
  have s1: "inventory_df st' = Some ivs'" and s2: "products_df st' = Some ps"
    by (simp_all add: st')
  from ivs s1 s2 len t nn low cat orph gm show ?thesis
    by blast
qed

theorem inventory_rows_survive_witness:
  "clean_data example_parse example_today example_orphan =
     (None, snd (clean_data example_parse example_today example_orphan)) \<and>
   the (inventory_df (snd (clean_data example_parse example_today example_orphan))) =
     [\<lparr>i_id = 7, i_product_id = 99, i_current_stock = Some 0, i_reorder_level = Some 5,
       i_max_stock = Some 50, i_turnover_rate = Some 1, i_last_updated = None\<rparr>,
      \<lparr>i_id = 8, i_product_id = 11, i_current_stock = Some 2, i_reorder_level = Some 5,
       i_max_stock = Some 40, i_turnover_rate = Some 4, i_last_updated = None\<rparr>] \<and>
   generate_metrics argsort_stable example_now
       (snd (clean_data example_parse example_today example_orphan)) =
     (None, snd (generate_metrics argsort_stable example_now
       (snd (clean_data example_parse example_today example_orphan)))) \<and>
   inventory_insights (the (processed_data
     (snd (generate_metrics argsort_stable example_now
       (snd (clean_data example_parse example_today example_orphan)))))) =
     \<lparr>low_stock_products =
        [\<lparr>ls_product_id = 11, ls_name = Some ''Novel'', ls_category = Some ''Books'',
          ls_current_stock = Some 2, ls_reorder_level = Some 5, ls_turnover_rate = Some 4\<rparr>],
      total_products_at_risk = 1,
      turnover_by_category =
        [(''Books'', \<lparr>avg_turnover = Some 4, min_turnover = Some 4, max_turnover = Some 4\<rparr>)]\<rparr> \<and>
   (\<exists>ivs ivs' ps.
     inventory_df example_orphan = Some ivs \<and>
     inventory_df (snd (clean_data example_parse example_today example_orphan)) = Some ivs' \<and>
     products_df (snd (clean_data example_parse example_today example_orphan)) = Some ps \<and>
     take (length ivs) ivs' = map clamped_defaulted ivs \<and>
     map ls_product_id (low_stock_products_of ps ivs') =
       map i_product_id
         (filter (\<lambda>r. i_product_id r \<in> set (map p_id ps) \<and> at_risk r) ivs') \<and>
     inventory_insights_of ps ivs' =
       inventory_insights_of ps (filter (\<lambda>r. i_product_id r \<in> set (map p_id ps)) ivs'))"
proof -
  have c: "clean_data example_parse example_today example_orphan =
     (None, snd (clean_data example_parse example_today example_orphan))"
    by code_simp
  have i: "the (inventory_df (snd (clean_data example_parse example_today example_orphan))) =
     [\<lparr>i_id = 7, i_product_id = 99, i_current_stock = Some 0, i_reorder_level = Some 5,
       i_max_stock = Some 50, i_turnover_rate = Some 1, i_last_updated = None\<rparr>,
      \<lparr>i_id = 8, i_product_id = 11, i_current_stock = Some 2, i_reorder_level = Some 5,
       i_max_stock = Some 40, i_turnover_rate = Some 4, i_last_updated = None\<rparr>]"
    by code_simp
  have g: "generate_metrics argsort_stable example_now
       (snd (clean_data example_parse example_today example_orphan)) =
     (None, snd (generate_metrics argsort_stable example_now
       (snd (clean_data example_parse example_today example_orphan))))"
    by code_simp
  have r: "inventory_insights (the (processed_data
     (snd (generate_metrics argsort_stable example_now
       (snd (clean_data example_parse example_today example_orphan)))))) =
     \<lparr>low_stock_products =
        [\<lparr>ls_product_id = 11, ls_name = Some ''Novel'', ls_category = Some ''Books'',
          ls_current_stock = Some 2, ls_reorder_level = Some 5, ls_turnover_rate = Some 4\<rparr>],
      total_products_at_risk = 1,
      turnover_by_category =
        [(''Books'', \<lparr>avg_turnover = Some 4, min_turnover = Some 4, max_turnover = Some 4\<rparr>)]\<rparr>"
    by code_simp
  from inventory_rows_survive [OF c] c i g r show ?thesis
    by blast
qed

section \<open>Top products: proofs\<close>

lemma argsort_stable_ok: "argsort_ok argsort_stable"
proof -
  have "sorted_wrt (\<lambda>i j. vs ! j \<le> vs ! i) (argsort_stable vs)" for vs
  proof -
    have "sorted (map (\<lambda>i. - (vs ! i)) (argsort_stable vs))"
      unfolding argsort_stable_def by (rule sorted_sort_key)
    then show ?thesis
      by (simp add: sorted_map)
  qed
  then show ?thesis
    by (auto simp: argsort_ok_def argsort_stable_def)
qed

lemma sort_values_desc_sorted:
  assumes "argsort_ok argsort"
  shows "sorted_wrt (\<lambda>a b. col b \<le> col a) (sort_values_desc argsort col rows)"
proof -
  let ?vs = "map col rows"
  from assms have s: "sorted_wrt (\<lambda>i j. ?vs ! j \<le> ?vs ! i) (argsort ?vs)"
    and r: "set (argsort ?vs) = {..<length ?vs}"
    by (simp_all add: argsort_ok_def)
  have "sorted_wrt (\<lambda>i j. col (rows ! j) \<le> col (rows ! i)) (argsort ?vs)"
    using s
  proof (rule sorted_wrt_mono_rel [rotated])
    fix i j
    assume "i \<in> set (argsort ?vs)" "j \<in> set (argsort ?vs)" "?vs ! j \<le> ?vs ! i"
    with r show "col (rows ! j) \<le> col (rows ! i)"
      by simp
  qed
  then show ?thesis
    by (simp add: sort_values_desc_def sorted_wrt_map)
qed

lemma sort_values_desc_distinct:
  assumes "argsort_ok argsort" and "distinct (map f rows)"
  shows "distinct (map f (sort_values_desc argsort col rows))"
proof -
  let ?vs = "map col rows"
  from assms(1) have d: "distinct (argsort ?vs)" and r: "set (argsort ?vs) = {..<length rows}"
    by (simp_all add: argsort_ok_def)
  have "inj_on (\<lambda>i. f (rows ! i)) (set (argsort ?vs))"
  proof (rule inj_onI)
    fix i j
    assume "i \<in> set (argsort ?vs)" "j \<in> set (argsort ?vs)" "f (rows ! i) = f (rows ! j)"
    with r have "i < length (map f rows)" "j < length (map f rows)"
      "map f rows ! i = map f rows ! j"
      by simp_all
    with assms(2) show "i = j"
      by (simp only: nth_eq_iff_index_eq)
  qed
  with d show ?thesis
    by (simp add: sort_values_desc_def distinct_map comp_def)
qed

lemma product_groups_ids:
  "map tp_product_id (product_groups ps ss) =
     map fst (sort (remdups (present (map product_key (merge_on s_product_id p_id ss ps)))))"
  by (simp add: product_groups_def Let_def groupby_def comp_def split_def)

lemma present_mem: "v \<in> set (present xs) \<longleftrightarrow> Some v \<in> set xs"
  by (simp add: set_present)

lemma product_key_inj:
  assumes "distinct (map p_id ps)"
  shows "inj_on fst (set (present (map product_key (merge_on s_product_id p_id ss ps))))"
proof (rule inj_onI)
  fix k1 k2
  assume k1: "k1 \<in> set (present (map product_key (merge_on s_product_id p_id ss ps)))"
    and k2: "k2 \<in> set (present (map product_key (merge_on s_product_id p_id ss ps)))"
    and eq: "fst k1 = fst k2"
  have key: "\<exists>p\<in>set ps. p_id p = fst k \<and> p_name p = Some (fst (snd k)) \<and>
        p_category p = Some (snd (snd k))"
    if "k \<in> set (present (map product_key (merge_on s_product_id p_id ss ps)))" for k
  proof -
    from that obtain s p where m: "(s, p) \<in> set (merge_on s_product_id p_id ss ps)"
      and k: "product_key (s, p) = Some k"
      by (auto simp: present_mem)
    from merge_on_keys [OF m] have "p \<in> set ps" "p_id p = s_product_id s"
      by simp_all
    moreover from k have "fst k = s_product_id s" "p_name p = Some (fst (snd k))"
      "p_category p = Some (snd (snd k))"
      by (auto simp: product_key_def split: option.splits)
    ultimately show ?thesis
      by auto
  qed
  from key [OF k1] obtain p1 where p1: "p1 \<in> set ps" "p_id p1 = fst k1"
    "p_name p1 = Some (fst (snd k1))" "p_category p1 = Some (snd (snd k1))"
    by blast
  from key [OF k2] obtain p2 where p2: "p2 \<in> set ps" "p_id p2 = fst k2"
    "p_name p2 = Some (fst (snd k2))" "p_category p2 = Some (snd (snd k2))"
    by blast
  from assms have "inj_on p_id (set ps)"
    by (simp add: distinct_map)
  with p1(1,2) p2(1,2) eq have "p1 = p2"
    by (simp add: inj_on_def)
  with p1(3,4) p2(3,4) have "snd k1 = snd k2"
    by (simp add: prod_eq_iff)
  with eq show "k1 = k2"
    by (simp add: prod_eq_iff)
qed

lemma product_groups_distinct:
  assumes "distinct (map p_id ps)"
  shows "distinct (map tp_product_id (product_groups ps ss))"
  unfolding product_groups_ids
  by (simp add: distinct_map product_key_inj [OF assms])

text \<open>
  With any sort that orders the rows by descending revenue, the table of the top products
  of a product table with unique ids has at most 20 entries, is in descending order of
  the summed revenue, and has no two entries of the same \<open>product_id\<close>.
\<close>

lemma top_products_of_sorted:
  assumes "argsort_ok argsort" and "distinct (map p_id ps)"
  shows "length (top_products_of argsort ps ss) \<le> 20 \<and>
     sorted_wrt (\<lambda>a b. tp_total_revenue b \<le> tp_total_revenue a) (top_products_of argsort ps ss) \<and>
     distinct (map tp_product_id (top_products_of argsort ps ss))"
proof -
  let ?sorted = "sort_values_desc argsort tp_total_revenue (product_groups ps ss)"
  have 1: "length (top_products_of argsort ps ss) \<le> 20"
    by (simp add: top_products_of_def)
  have "sorted_wrt (\<lambda>a b. tp_total_revenue b \<le> tp_total_revenue a) ?sorted"
    by (rule sort_values_desc_sorted [OF assms(1)])
  then have 2: "sorted_wrt (\<lambda>a b. tp_total_revenue b \<le> tp_total_revenue a)
      (top_products_of argsort ps ss)"
    unfolding top_products_of_def by (rule sorted_wrt_take)
  have "distinct (map tp_product_id ?sorted)"
    by (rule sort_values_desc_distinct [OF assms(1) product_groups_distinct [OF assms(2)]])
  then have 3: "distinct (map tp_product_id (top_products_of argsort ps ss))"
    unfolding top_products_of_def take_map [symmetric] by (rule distinct_take)
  from 1 2 3 show ?thesis
    by simp
qed

section \<open>Customer summary: proofs\<close>

lemma count_by_keys:
  assumes "distinct (map f cs)" and "distinct ks" and "set ks \<subseteq> f ` set cs"
  shows "length (filter (\<lambda>c. f c \<in> set ks \<and> Q (f c)) cs) = length (filter Q ks)"
proof -
  have "length (filter (\<lambda>c. f c \<in> set ks \<and> Q (f c)) cs) =
      length (map f (filter (\<lambda>c. f c \<in> set ks \<and> Q (f c)) cs))"
    by simp
  also have "map f (filter (\<lambda>c. f c \<in> set ks \<and> Q (f c)) cs) =
      filter (\<lambda>k. k \<in> set ks \<and> Q k) (map f cs)"
    by (simp add: filter_map comp_def)
  also have "length \<dots> = card (set (filter (\<lambda>k. k \<in> set ks \<and> Q k) (map f cs)))"
  proof -
    from assms(1) have "distinct (filter (\<lambda>k. k \<in> set ks \<and> Q k) (map f cs))"
      by (rule distinct_filter)
    then show ?thesis
      by (rule distinct_card [symmetric])
  qed
  also have "set (filter (\<lambda>k. k \<in> set ks \<and> Q k) (map f cs)) = set (filter Q ks)"
    using assms(3) by auto
  also have "card (set (filter Q ks)) = length (filter Q ks)"
  proof -
    from assms(2) have "distinct (filter Q ks)"
      by (rule distinct_filter)
    then show ?thesis
      by (rule distinct_card)
  qed
  finally show ?thesis .
qed

lemma has_sale_eq: "has_sale ss = (\<lambda>c. c_id c \<in> set (map s_customer_id ss))"
  by (rule ext) (simp add: has_sale_def)

lemma churned_eq:
  "churned now ss =
     (\<lambda>c. case days_since_last_purchase now ss (c_id c) of None \<Rightarrow> False | Some d \<Rightarrow> 90 < d)"
  by (rule ext) (simp add: churned_def)

lemma groupby_total:
  "groupby (\<lambda>s. Some (f s)) ss =
     map (\<lambda>k. (k, filter (\<lambda>s. f s = k) ss)) (sort (remdups (map f ss)))"
  by (simp add: groupby_def)

text \<open>The churn flag of a row of \<open>customer_metrics\<close> is that of the customer id of its group.\<close>

lemma customer_metrics_churn_flags:
  assumes "customers_clean cs" and "sales_clean cs ps ss"
  shows "map cm_is_churned (customer_metrics_of now cs ss) =
     map (\<lambda>k. case days_since_last_purchase now ss k of None \<Rightarrow> False | Some d \<Rightarrow> 90 < d)
       (sort (remdups (map s_customer_id ss)))"
proof -
  let ?K = "sort (remdups (map s_customer_id ss))"
  let ?G = "groupby (\<lambda>s. Some (s_customer_id s)) ss"
  let ?flag = "\<lambda>g. case map_option (days_between now) (col_max (map (\<lambda>s. stamp (s_date s)) (snd g)))
       of None \<Rightarrow> False | Some d \<Rightarrow> 90 < d"
  from assms have d: "distinct (map c_id cs)"
    and refs: "\<forall>s\<in>set ss. s_customer_id s \<in> c_id ` set cs"
    by (auto simp: customers_clean_def sales_clean_def list_all_iff)
  have G: "?G = map (\<lambda>k. (k, filter (\<lambda>s. s_customer_id s = k) ss)) ?K"
    by (rule groupby_total)
  have "\<forall>g\<in>set ?G. fst g \<in> c_id ` set cs"
    using refs by (auto simp: G)
  with d have fstM: "map fst (merge_on fst c_id ?G cs) = ?G"
    by (rule merge_on_unique)
  have "map cm_is_churned (customer_metrics_of now cs ss) =
      map (\<lambda>x. ?flag (fst x)) (merge_on fst c_id ?G cs)"
    by (simp add: customer_metrics_of_def Let_def comp_def split_def)
  also have "\<dots> = map ?flag (map fst (merge_on fst c_id ?G cs))"
    by (simp add: comp_def)
  also have "\<dots> = map ?flag ?G"
    by (simp only: fstM)
  also have "\<dots> = map (\<lambda>k. case days_since_last_purchase now ss k of None \<Rightarrow> False
      | Some d \<Rightarrow> 90 < d) ?K"
    by (simp add: G comp_def days_since_last_purchase_def)
  finally show ?thesis .
qed

lemma length_filter_map_bool:
  "length (filter cm_is_churned cms) = length (filter (\<lambda>b. b) (map cm_is_churned cms))"
  by (induction cms) simp_all

lemma length_filter_map_Q:
  "length (filter (\<lambda>b. b) (map Q ks)) = length (filter Q ks)"
  by (induction ks) simp_all

lemma customer_summary_counts:
  fixes now :: int and cs :: "customer list" and ss :: "sale list"
  assumes "customers_clean cs" and "sales_clean cs ps ss"
  defines "sm \<equiv> customer_metrics_summary_of (customer_metrics_of now cs ss)"
  shows "total_customers sm = length (filter (has_sale ss) cs)"
    and "churned_customers sm = length (filter (\<lambda>c. has_sale ss c \<and> churned now ss c) cs)"
    and "churn_rate sm =
      (if filter (has_sale ss) cs = [] then None
       else Some (of_nat (length (filter (\<lambda>c. has_sale ss c \<and> churned now ss c) cs)) /
                  of_nat (length (filter (has_sale ss) cs))))"
proof -
  let ?K = "sort (remdups (map s_customer_id ss))"
  let ?Q = "\<lambda>k. case days_since_last_purchase now ss k of None \<Rightarrow> False | Some d \<Rightarrow> 90 < d"
  let ?cms = "customer_metrics_of now cs ss"
  from assms(1,2) have d: "distinct (map c_id cs)"
    and refs: "set ?K \<subseteq> c_id ` set cs"
    by (auto simp: customers_clean_def sales_clean_def list_all_iff)
  have dK: "distinct ?K"
    by simp
  have flags: "map cm_is_churned ?cms = map ?Q ?K"
    by (rule customer_metrics_churn_flags [OF assms(1,2)])
  have total_K: "length (filter (has_sale ss) cs) = length ?K"
    using count_by_keys [OF d dK refs, of "\<lambda>k. True"] by (simp add: has_sale_eq)
  have churned_K: "length (filter (\<lambda>c. has_sale ss c \<and> churned now ss c) cs) = length (filter ?Q ?K)"
    using count_by_keys [OF d dK refs, of ?Q] by (simp add: has_sale_eq churned_eq)
  have len: "length ?cms = length ?K"
    using arg_cong [OF flags, of length] by simp
  have ch: "length (filter cm_is_churned ?cms) = length (filter ?Q ?K)"
    by (simp only: length_filter_map_bool flags length_filter_map_Q)
  show "total_customers sm = length (filter (has_sale ss) cs)"
    by (simp add: sm_def customer_metrics_summary_of_def len total_K)
  show "churned_customers sm = length (filter (\<lambda>c. has_sale ss c \<and> churned now ss c) cs)"
    by (simp add: sm_def customer_metrics_summary_of_def ch churned_K)
  have "churn_rate sm = bool_mean (map ?Q ?K)"
    by (simp add: sm_def customer_metrics_summary_of_def flags)
  also have "\<dots> = (if ?K = [] then None
       else Some (of_nat (length (filter ?Q ?K)) / of_nat (length ?K)))"
    by (simp only: bool_mean_eq length_filter_map_Q length_map map_is_Nil_conv)
  also have "\<dots> = (if filter (has_sale ss) cs = [] then None
       else Some (of_nat (length (filter (\<lambda>c. has_sale ss c \<and> churned now ss c) cs)) /
                  of_nat (length (filter (has_sale ss) cs))))"
    using total_K by (simp only: churned_K length_0_conv [symmetric])
  finally show "churn_rate sm =
      (if filter (has_sale ss) cs = [] then None
       else Some (of_nat (length (filter (\<lambda>c. has_sale ss c \<and> churned now ss c) cs)) /
                  of_nat (length (filter (has_sale ss) cs))))" .
qed

text \<open>
  C4 (as amended). In \<open>customer_metrics_summary\<close>, \<open>total_customers\<close> is the number of
  cleaned customers that have at least one cleaned sale, \<open>churned_customers\<close> the number of
  those whose days since the last purchase exceed 90, and \<open>churn_rate\<close> the second divided
  by the first.
\<close>

theorem churn_rate_of_buyers:
  assumes "clean_data parse today st = (None, st')"
    and "generate_metrics argsort now st' = (None, st'')"
  shows "\<exists>cs ss m. customers_df st' = Some cs \<and> sales_df st' = Some ss \<and>
     processed_data st'' = Some m \<and>
     total_customers (customer_metrics_summary m) = length (filter (has_sale ss) cs) \<and>
     churned_customers (customer_metrics_summary m) =
       length (filter (\<lambda>c. has_sale ss c \<and> churned now ss c) cs) \<and>
     churn_rate (customer_metrics_summary m) =
       (if filter (has_sale ss) cs = [] then None
        else Some (of_nat (length (filter (\<lambda>c. has_sale ss c \<and> churned now ss c) cs)) /
                   of_nat (length (filter (has_sale ss) cs))))"
proof -
  from assms(1) obtain cs ps ss ivs where
    st': "st' = st\<lparr>customers_df := Some cs, products_df := Some ps, sales_df := Some ss,
        inventory_df := Some ivs\<rparr>"
    and c: "customers_clean cs" and s: "sales_clean cs ps ss"
    by (rule clean_data_None)
  from assms(2) obtain cs2 ps2 ss2 ivs2 ins where
    "customers_df st' = Some cs2" "sales_df st' = Some ss2"
    and st'': "st'' = st'\<lparr>processed_data := Some
       \<lparr>revenue_by_region = revenue_by_region_of cs2 ss2,
        top_products = top_products_of argsort ps2 ss2,
        category_performance = category_performance_of argsort ps2 ss2,
        customer_metrics_summary = customer_metrics_summary_of (customer_metrics_of now cs2 ss2),
        age_group_analysis = age_group_analysis_of (customer_metrics_of now cs2 ss2),
        inventory_insights = inventory_insights_of ps2 ivs2,
        business_insights = ins\<rparr>\<rparr>"
    by (rule generate_metrics_None)
  then have eq: "cs2 = cs" "ss2 = ss"
    by (simp_all add: st')
  from customer_summary_counts [OF c s, of now] show ?thesis
    by (simp only: st' st'' eq) simp
qed

theorem churn_rate_of_buyers_witness:
  "clean_data example_parse example_today example_idle =
     (None, snd (clean_data example_parse example_today example_idle)) \<and>
   generate_metrics argsort_stable example_now
       (snd (clean_data example_parse example_today example_idle)) =
     (None, snd (generate_metrics argsort_stable example_now
       (snd (clean_data example_parse example_today example_idle)))) \<and>
   (\<exists>cs ss m. customers_df (snd (clean_data example_parse example_today example_idle)) = Some cs \<and>
     sales_df (snd (clean_data example_parse example_today example_idle)) = Some ss \<and>
     processed_data (snd (generate_metrics argsort_stable example_now
       (snd (clean_data example_parse example_today example_idle)))) = Some m \<and>
     total_customers (customer_metrics_summary m) = length (filter (has_sale ss) cs) \<and>
     churned_customers (customer_metrics_summary m) =
       length (filter (\<lambda>c. has_sale ss c \<and> churned example_now ss c) cs))"
proof -
  have c: "clean_data example_parse example_today example_idle =
     (None, snd (clean_data example_parse example_today example_idle))"
    by code_simp
  have g: "generate_metrics argsort_stable example_now
       (snd (clean_data example_parse example_today example_idle)) =
     (None, snd (generate_metrics argsort_stable example_now
       (snd (clean_data example_parse example_today example_idle))))"
    by code_simp
  from churn_rate_of_buyers [OF c g] c g show ?thesis
    by blast
qed

text \<open>
  Of two cleaned customers one has never bought: the summary counts one customer, and
  its churn rate is 1, not 1/2.
\<close>

theorem churn_rate_counterexample:
  "clean_data example_parse example_today example_idle =
     (None, snd (clean_data example_parse example_today example_idle)) \<and>
   generate_metrics argsort_stable example_now
       (snd (clean_data example_parse example_today example_idle)) =
     (None, snd (generate_metrics argsort_stable example_now
       (snd (clean_data example_parse example_today example_idle)))) \<and>
   length (the (customers_df (snd (clean_data example_parse example_today example_idle)))) = 2 \<and>
   total_customers (customer_metrics_summary (the (processed_data
     (snd (generate_metrics argsort_stable example_now
       (snd (clean_data example_parse example_today example_idle))))))) = 1 \<and>
   churn_rate (customer_metrics_summary (the (processed_data
     (snd (generate_metrics argsort_stable example_now
       (snd (clean_data example_parse example_today example_idle))))))) = Some 1"
  by code_simp

end
